theory Spec2Isabelle
  imports Complex_Main "HOL-Library.Sublist" "HOL-Library.AList" "HOL-Library.Multiset"
begin

section \<open>TripBuddy: a shallow embedding of \<^verbatim>\<open>TripBuddy.py\<close>\<close>

text \<open>
  The planner scrapes two pages, filters attraction names by keyword, draws random
  costs and splits the attractions over the days of the trip.

  Conventions of the embedding.
  \<^item> A Python \<^verbatim>\<open>str\<close> is a \<^typ>\<open>string\<close>. The text is taken to be ASCII, except for
    the rupee sign, which is written as its three UTF-8 bytes; \<^verbatim>\<open>str.lower\<close>,
    \<^verbatim>\<open>\d\<close> and \<^verbatim>\<open>\s\<close> are the ASCII ones.
  \<^item> A Python \<^verbatim>\<open>int\<close> is an \<^typ>\<open>int\<close>. A Python \<^verbatim>\<open>float\<close> is the rational number it
    is meant to hold (\<^typ>\<open>rat\<close>): binary rounding is not modelled.
  \<^item> A call that can raise returns \<open>error + 'a\<close>, with \<open>Inl\<close> the exception.
  \<^item> The module \<^verbatim>\<open>random\<close> is a stream of raw draws that is passed along; each
    \<^verbatim>\<open>_randbelow(n)\<close> reduces the next raw draw modulo \<open>n\<close>, so that every outcome of
    the library is the outcome of some stream.
  \<^item> The two HTTP reads and the HTML parser are the environment: a record \<open>web\<close> tells,
    for each URL, whether the request raises, and otherwise the status code and what the
    selectors find in the page.
\<close>

subsection \<open>Python strings\<close>

definition isdigit :: "char \<Rightarrow> bool" where
  "isdigit c = (let n = (of_char c :: nat) in 48 \<le> n \<and> n \<le> 57)"

definition isspace :: "char \<Rightarrow> bool" where
  "isspace c = (let n = (of_char c :: nat) in (9 \<le> n \<and> n \<le> 13) \<or> (28 \<le> n \<and> n \<le> 32))"

definition lower_char :: "char \<Rightarrow> char" where
  "lower_char c = (let n = (of_char c :: nat) in if 65 \<le> n \<and> n \<le> 90 then char_of (n + 32) else c)"

definition lower :: "string \<Rightarrow> string" where
  "lower s = map lower_char s"

definition strip :: "string \<Rightarrow> string" where
  "strip s = rev (dropWhile isspace (rev (dropWhile isspace s)))"

definition replace_char :: "char \<Rightarrow> string \<Rightarrow> string \<Rightarrow> string" where
  "replace_char old new s = concat (map (\<lambda>c. if c = old then new else [c]) s)"

subsection \<open>Exceptions\<close>

datatype error = RequestException | ParseError | ValueError | IndexError | ZeroDivisionError

subsection \<open>Filter attractions\<close>

text \<open>The dictionary \<^verbatim>\<open>category_keywords\<close>, and \<^verbatim>\<open>dict.get\<close> with a default.\<close>

definition category_keywords :: "string \<rightharpoonup> string list" where
  "category_keywords = map_of
     [(''historical'', [''fort'', ''palace'', ''temple'', ''monument'', ''heritage'', ''gate'', ''tomb'']),
      (''fun'', [''beach'', ''park'', ''zoo'', ''amusement'', ''island'', ''water'', ''lake'']),
      (''museum'', [''museum'', ''gallery'', ''memorial'', ''exhibition'', ''centre'', ''art'']),
      (''nature'', [''hill'', ''mountain'', ''valley'', ''garden'', ''wildlife'', ''forest'', ''sanctuary''])]"

definition dict_get :: "('k \<rightharpoonup> 'v) \<Rightarrow> 'k \<Rightarrow> 'v \<Rightarrow> 'v" where
  "dict_get d k dflt = (case d k of None \<Rightarrow> dflt | Some v \<Rightarrow> v)"

text \<open>
  \<^verbatim>\<open>list(set(selected_keywords))\<close> removes duplicates and leaves the order to the hash
  table; the list is only read by \<^verbatim>\<open>any\<close>, which does not depend on the order, so
  \<^const>\<open>remdups\<close> stands for it. \<^verbatim>\<open>kw in a.lower()\<close> is the substring test \<^const>\<open>sublist\<close>.
\<close>

definition filter_attractions :: "string list \<Rightarrow> string list \<Rightarrow> string list" where
  "filter_attractions attractions preferences =
     (if preferences = [] \<or> ''all'' \<in> set preferences then attractions
      else
        let selected_keywords = concat (map (\<lambda>pref. dict_get category_keywords pref []) preferences);
            selected_keywords = remdups selected_keywords
        in filter (\<lambda>a. list_ex (\<lambda>kw. sublist kw (lower a)) selected_keywords) attractions)"

subsection \<open>The environment: HTTP reads and parsed pages\<close>

text \<open>
  \<^verbatim>\<open>requests.get\<close> either raises or answers with a status code. When the code goes on
  to parse, the parser and the selector either raise or give the matched elements: for
  the sightseeing page the \<^verbatim>\<open>get_text(strip=True)\<close> of every heading, for the hotels
  page the matched cards.
\<close>

datatype 'a fetched = Raised error | Response int "error + 'a"

text \<open>
  What the scraper reads of one card: the text of the first name tag and of the first
  price tag (\<open>None\<close> when \<^verbatim>\<open>select_one\<close> finds nothing),
  \<^verbatim>\<open>card.get_text(" ", strip=True)\<close> and \<^verbatim>\<open>card.get_text()\<close>.
\<close>

record card =
  name_tag :: "string option"
  price_tag :: "string option"
  text_sep :: string
  text_all :: string

record web =
  sightseeing_page :: "string \<Rightarrow> string list fetched"
  hotels_page :: "string \<Rightarrow> card list fetched"

definition slug :: "string \<Rightarrow> string" where
  "slug dest = replace_char CHR '' '' ''-'' (lower dest)"

definition attractions_url :: "string \<Rightarrow> string" where
  "attractions_url dest =
     ''https://www.holidify.com/places/'' @ slug dest @ ''/sightseeing-and-things-to-do.html''"

definition hotels_url :: "string \<Rightarrow> string" where
  "hotels_url dest =
     ''https://www.holidify.com/places/'' @ slug dest @ ''/hotels-where-to-stay.html''"

subsection \<open>The module random\<close>

type_synonym rng = "nat \<Rightarrow> nat"

definition randbelow :: "nat \<Rightarrow> rng \<Rightarrow> nat \<times> rng" where
  "randbelow n g = (g 0 mod n, \<lambda>k. g (Suc k))"

definition randint :: "int \<Rightarrow> int \<Rightarrow> rng \<Rightarrow> int \<times> rng" where
  "randint a b g = (let (r, g') = randbelow (nat (b - a + 1)) g in (a + int r, g'))"

text \<open>\<^verbatim>\<open>random.choice\<close> raises IndexError on an empty sequence.\<close>

definition choice :: "'a list \<Rightarrow> rng \<Rightarrow> (error + 'a) \<times> rng" where
  "choice seq g =
     (if seq = [] then (Inl IndexError, g)
      else let (i, g') = randbelow (length seq) g in (Inr (seq ! i), g'))"

text \<open>
  \<^verbatim>\<open>random.shuffle(x)\<close> is the library's loop
  \<^verbatim>\<open>for i in reversed(range(1, len(x))): j = randbelow(i + 1); x[i], x[j] = x[j], x[i]\<close>.
\<close>

fun shuffle_from :: "nat \<Rightarrow> 'a list \<Rightarrow> rng \<Rightarrow> 'a list \<times> rng" where
  "shuffle_from 0 x g = (x, g)"
| "shuffle_from (Suc k) x g =
     (let (j, g') = randbelow (Suc k + 1) g
      in shuffle_from k (x[Suc k := x ! j, j := x ! Suc k]) g')"

definition shuffle :: "'a list \<Rightarrow> rng \<Rightarrow> 'a list \<times> rng" where
  "shuffle x g = shuffle_from (length x - 1) x g"

text \<open>
  \<^verbatim>\<open>round(random.uniform(3.5, 4.8), 1)\<close>: one of the fourteen ratings 3.5, 3.6, ..., 4.8.
\<close>

definition uniform_rating :: "rng \<Rightarrow> rat \<times> rng" where
  "uniform_rating g = (let (r, g') = randbelow 14 g in ((35 + of_nat r) / 10, g'))"

subsection \<open>Scrape attractions\<close>

text \<open>
  \<^verbatim>\<open>re.sub(r"^\d+\.\s*", "", a)\<close>: a leading run of digits followed by a dot is removed
  together with the white space after the dot; anything else is left as it is.
\<close>

definition re_sub_ordinal :: "string \<Rightarrow> string" where
  "re_sub_ordinal a =
     (let ds = takeWhile isdigit a; rest = dropWhile isdigit a
      in if ds \<noteq> [] \<and> rest \<noteq> [] \<and> hd rest = CHR ''.'' then dropWhile isspace (tl rest) else a)"

primrec clean :: "string list \<Rightarrow> string list" where
  "clean [] = []"
| "clean (a # attractions) =
     (let a' = strip (re_sub_ordinal a)
      in if length a' > 2 then a' # clean attractions else clean attractions)"

text \<open>The body of the \<^verbatim>\<open>try\<close> block, then the function with its \<^verbatim>\<open>except Exception\<close>.\<close>

definition attractions_try :: "web \<Rightarrow> string \<Rightarrow> error + string list" where
  "attractions_try w dest =
     (case sightseeing_page w (attractions_url dest) of
        Raised e \<Rightarrow> Inl e
      | Response status_code soup \<Rightarrow>
          if status_code \<noteq> 200 then Inr []
          else (case soup of Inl e \<Rightarrow> Inl e | Inr attractions \<Rightarrow> Inr (clean attractions)))"

definition scrape_holidify_attractions :: "web \<Rightarrow> string \<Rightarrow> error + string list" where
  "scrape_holidify_attractions w dest =
     (case attractions_try w dest of Inl e \<Rightarrow> Inr [] | Inr clean_list \<Rightarrow> Inr clean_list)"

subsection \<open>Scrape hotels\<close>

record hotel =
  name :: string
  price :: int
  rating :: rat

definition rupee :: string where
  "rupee = [char_of (226 :: nat), char_of (130 :: nat), char_of (185 :: nat)]"

text \<open>
  \<^verbatim>\<open>re.search(r"\<rupee>\s?([\d,]+)", price_text)\<close>, where \<^verbatim>\<open>\<rupee>\<close> stands for the rupee
  sign: the leftmost position where the sign, at most one white space and a non-empty run
  of digits and commas follow each other; the result is that run, as long as it can be.
\<close>

definition match_price :: "string \<Rightarrow> string option" where
  "match_price s =
     (if prefix rupee s then
        let r = drop (length rupee) s;
            r' = (case r of [] \<Rightarrow> r | c # t \<Rightarrow> if isspace c then t else r);
            grp = takeWhile (\<lambda>c. isdigit c \<or> c = CHR '','') r'
        in if grp = [] then None else Some grp
      else None)"

fun re_search_price :: "string \<Rightarrow> string option" where
  "re_search_price [] = None"
| "re_search_price (c # cs) =
     (case match_price (c # cs) of Some grp \<Rightarrow> Some grp | None \<Rightarrow> re_search_price cs)"

text \<open>\<^verbatim>\<open>re.search(r"(\d\.\d)", card.get_text())\<close>.\<close>

fun re_search_rating :: "string \<Rightarrow> string option" where
  "re_search_rating (a # b # c # cs) =
     (if isdigit a \<and> b = CHR ''.'' \<and> isdigit c then Some [a, b, c]
      else re_search_rating (b # c # cs))"
| "re_search_rating _ = None"

definition digit_val :: "char \<Rightarrow> nat" where
  "digit_val c = of_char c - 48"

text \<open>
  \<^verbatim>\<open>int(s)\<close> on a string of decimal digits. The empty string raises ValueError, and so
  does a string of more than 4300 digits (the interpreter's default limit). The scraper
  calls it on digits only, so signs, blanks and underscores are not modelled.
\<close>

definition py_int :: "string \<Rightarrow> error + int" where
  "py_int s =
     (if s = [] \<or> \<not> list_all isdigit s \<or> 4300 < int (length s) then Inl ValueError
      else Inr (int (foldl (\<lambda>acc c. 10 * acc + digit_val c) 0 s)))"

text \<open>\<^verbatim>\<open>float(s)\<close> on a match of \<^verbatim>\<open>\d\.\d\<close>.\<close>

definition py_float :: "string \<Rightarrow> error + rat" where
  "py_float s =
     (case s of
        [a, b, c] \<Rightarrow>
          if isdigit a \<and> b = CHR ''.'' \<and> isdigit c
          then Inr (of_nat (digit_val a) + of_nat (digit_val c) / 10)
          else Inl ValueError
      | _ \<Rightarrow> Inl ValueError)"

text \<open>
  Name and price of one card, lines 47 to 60 of the loop body: \<open>None\<close> when the card is
  skipped by \<^verbatim>\<open>continue\<close>, \<open>Some (Inl e)\<close> when \<^verbatim>\<open>int\<close> raises.
\<close>

definition card_name_price :: "card \<Rightarrow> (error + string \<times> int) option" where
  "card_name_price c =
     (case name_tag c of
        None \<Rightarrow> None
      | Some nm \<Rightarrow>
          let price_text = (case price_tag c of Some t \<Rightarrow> t | None \<Rightarrow> text_sep c)
          in (case re_search_price price_text of
                None \<Rightarrow> None
              | Some grp \<Rightarrow>
                  (case py_int (replace_char CHR '','' [] grp) of
                     Inl e \<Rightarrow> Some (Inl e)
                   | Inr p \<Rightarrow> Some (Inr (nm, p)))))"

text \<open>Rating of one card, lines 63 and 64.\<close>

definition card_rating :: "card \<Rightarrow> rng \<Rightarrow> (error + rat) \<times> rng" where
  "card_rating c g =
     (case re_search_rating (text_all c) of
        Some grp \<Rightarrow> (py_float grp, g)
      | None \<Rightarrow> (let (r, g') = uniform_rating g in (Inr r, g')))"

text \<open>The loop over the cards, with the list \<^verbatim>\<open>valid_hotels\<close> built so far.\<close>

fun scan_cards :: "rat \<Rightarrow> card list \<Rightarrow> hotel list \<Rightarrow> rng \<Rightarrow> (error + hotel list) \<times> rng" where
  "scan_cards hotel_budget_per_day [] valid_hotels g = (Inr valid_hotels, g)"
| "scan_cards hotel_budget_per_day (c # cards) valid_hotels g =
     (case card_name_price c of
        None \<Rightarrow> scan_cards hotel_budget_per_day cards valid_hotels g
      | Some (Inl e) \<Rightarrow> (Inl e, g)
      | Some (Inr (nm, p)) \<Rightarrow>
          (case card_rating c g of
             (Inl e, g') \<Rightarrow> (Inl e, g')
           | (Inr r, g') \<Rightarrow>
               if of_int p \<le> hotel_budget_per_day
               then scan_cards hotel_budget_per_day cards
                      (valid_hotels @ [\<lparr>name = nm, price = p, rating = r\<rparr>]) g'
               else scan_cards hotel_budget_per_day cards valid_hotels g'))"

definition fallback_hotels :: "hotel list" where
  "fallback_hotels =
     [\<lparr>name = ''Budget Stay'', price = 1200, rating = 39 / 10\<rparr>,
      \<lparr>name = ''Hotel Comfort Inn'', price = 1400, rating = 42 / 10\<rparr>,
      \<lparr>name = ''City Lodge'', price = 1000, rating = 4\<rparr>]"

definition hotels_try :: "web \<Rightarrow> string \<Rightarrow> int \<Rightarrow> int \<Rightarrow> rng \<Rightarrow> (error + hotel list) \<times> rng" where
  "hotels_try w dest budget days g =
     (case hotels_page w (hotels_url dest) of
        Raised e \<Rightarrow> (Inl e, g)
      | Response status_code soup \<Rightarrow>
          if status_code \<noteq> 200 then (Inr [], g)
          else
            (case soup of
               Inl e \<Rightarrow> (Inl e, g)
             | Inr cards \<Rightarrow>
                 let hotel_budget_per_day = of_int budget * (1 / 2)
                 in (case scan_cards hotel_budget_per_day cards [] g of
                       (Inl e, g') \<Rightarrow> (Inl e, g')
                     | (Inr valid_hotels, g') \<Rightarrow>
                         let valid_hotels =
                               (if valid_hotels = [] then fallback_hotels else valid_hotels)
                         in (Inr (take 10 valid_hotels), g'))))"

text \<open>
  The handler prints one line and returns the empty list. The result carries the lines
  printed, so that the advisory message is visible in the model.
\<close>

datatype diagnostic = Hotel_scraping_error error

definition scrape_holidify_hotels ::
  "web \<Rightarrow> string \<Rightarrow> int \<Rightarrow> int \<Rightarrow> rng \<Rightarrow> (error + hotel list) \<times> rng \<times> diagnostic list" where
  "scrape_holidify_hotels w dest budget days g =
     (case hotels_try w dest budget days g of
        (Inl e, g') \<Rightarrow> (Inr [], g', [Hotel_scraping_error e])
      | (Inr valid_hotels, g') \<Rightarrow> (Inr valid_hotels, g', []))"

subsection \<open>Generate the travel plan\<close>

record plan =
  Destination :: string
  Hotel :: hotel
  Hotel_Cost :: int
  Food_Cost :: int
  Transport :: int
  Shopping :: rat
  Total_Cost :: rat
  Itinerary :: "(string \<times> string list) list"

definition default_attractions :: "string list" where
  "default_attractions = [''Local Market Visit'', ''City Park'', ''Sunset Point'', ''Cultural Walk'']"

text \<open>\<^verbatim>\<open>round(x, 2)\<close>: to the nearest hundredth, a tie going to the even one.\<close>

definition round_half_even :: "rat \<Rightarrow> int" where
  "round_half_even x =
     (let f = \<lfloor>x\<rfloor>; d = x - of_int f
      in if d < 1 / 2 then f else if 1 / 2 < d then f + 1 else if even f then f else f + 1)"

definition py_round2 :: "rat \<Rightarrow> rat" where
  "py_round2 x = of_int (round_half_even (x * 100)) / 100"

text \<open>\<^verbatim>\<open>str(n)\<close> for a natural number, and the key \<^verbatim>\<open>f"Day {i+1}"\<close>.\<close>

definition digit_char :: "nat \<Rightarrow> char" where
  "digit_char d = char_of (48 + d)"

fun str_nat :: "nat \<Rightarrow> string" where
  "str_nat n = (if n < 10 then [digit_char n] else str_nat (n div 10) @ [digit_char (n mod 10)])"

declare str_nat.simps [simp del]

definition day_label :: "nat \<Rightarrow> string" where
  "day_label i = ''Day '' @ str_nat (i + 1)"

text \<open>A slice \<^verbatim>\<open>x[lo:hi]\<close> with bounds that are not negative; Python clips both to the list.\<close>

definition slice :: "'a list \<Rightarrow> nat \<Rightarrow> nat \<Rightarrow> 'a list" where
  "slice x lo hi = take (hi - lo) (drop lo x)"

definition floordiv :: "int \<Rightarrow> int \<Rightarrow> error + int" where
  "floordiv a b = (if b = 0 then Inl ZeroDivisionError else Inr (a div b))"

text \<open>
  Lines 123 and 124. The dictionary is an association list in insertion order; storing
  under a key that is already there replaces its value in place, as \<^const>\<open>AList.update\<close>
  does. \<^verbatim>\<open>range(days)\<close> is empty when \<open>days\<close> is not positive.
\<close>

definition build_itinerary :: "string list \<Rightarrow> int \<Rightarrow> error + (string \<times> string list) list" where
  "build_itinerary attractions days =
     (case floordiv (int (length attractions)) days of
        Inl e \<Rightarrow> Inl e
      | Inr q \<Rightarrow>
          let per_day = nat (max 1 q)
          in Inr (fold (\<lambda>i d. AList.update (day_label i)
                                 (slice attractions (i * per_day) ((i + 1) * per_day)) d)
                       [0..<nat days] []))"

definition generate_plan ::
  "web \<Rightarrow> rng \<Rightarrow> string \<Rightarrow> int \<Rightarrow> int \<Rightarrow> string list \<Rightarrow> string \<Rightarrow> error + plan" where
  "generate_plan w g destination budget days preferences food_type =
     (case scrape_holidify_attractions w destination of
        Inl e \<Rightarrow> Inl e
      | Inr attractions \<Rightarrow>
     (case scrape_holidify_hotels w destination budget days g of
        (Inl e, g1, out) \<Rightarrow> Inl e
      | (Inr hotels, g1, out) \<Rightarrow>
          let attractions = filter_attractions attractions preferences;
              attractions = (if attractions = [] then default_attractions else attractions)
          in
     (case choice hotels g1 of
        (Inl e, g2) \<Rightarrow> Inl e
      | (Inr hotel, g2) \<Rightarrow>
          let hotel_cost = price hotel;
              (food_cost, g3) = (if food_type = ''vegetarian'' then randint 400 700 g2
                                 else randint 600 900 g2);
              (transport, g4) = randint 600 2000 g3;
              shopping_tours = py_round2 (of_int budget * (3 / 10));
              total_core = hotel_cost * days + food_cost * days + transport;
              total_trip_cost = of_int total_core + shopping_tours;
              (attractions, g5) = shuffle attractions g4
          in
     (case build_itinerary attractions days of
        Inl e \<Rightarrow> Inl e
      | Inr itinerary \<Rightarrow>
          Inr \<lparr>Destination = destination, Hotel = hotel, Hotel_Cost = hotel_cost,
               Food_Cost = food_cost, Transport = transport, Shopping = shopping_tours,
               Total_Cost = total_trip_cost, Itinerary = itinerary\<rparr>))))"

section \<open>Properties\<close>

subsection \<open>The attraction filter\<close>

lemma sublist_lower_preimage:
  assumes "sublist kw (lower a)"
  shows "\<exists>s. sublist s a \<and> lower s = kw"
proof -
  from assms obtain ps ss where "map lower_char a = ps @ kw @ ss"
    unfolding sublist_def lower_def by blast
  then obtain p r where a: "a = p @ r" and "map lower_char r = kw @ ss"
    by (metis map_eq_append_conv)
  then obtain s t where r: "r = s @ t" and s: "map lower_char s = kw"
    by (metis map_eq_append_conv)
  have "sublist s a" unfolding a r by (rule sublist_appendI)
  with s show ?thesis unfolding lower_def by blast
qed

lemma filter_attractions_selected:
  assumes "preferences \<noteq> []" and "''all'' \<notin> set preferences"
  shows "filter_attractions attractions preferences =
           filter (\<lambda>a. \<exists>pref \<in> set preferences. \<exists>kw \<in> set (dict_get category_keywords pref []).
                          sublist kw (lower a)) attractions"
  using assms by (auto simp: filter_attractions_def Let_def list_ex_iff intro!: filter_cong)

text \<open>
  C5. When the preference list is non-empty and does not contain "all", every attraction
  that \<open>filter_attractions\<close> keeps is one of the input attractions and contains, ignoring
  case, a keyword of one of the selected categories: some contiguous piece of the
  attraction lower-cases to the keyword.
\<close>

theorem filter_attractions_keyword:
  assumes "preferences \<noteq> []" and "''all'' \<notin> set preferences"
    and "a \<in> set (filter_attractions attractions preferences)"
  shows "a \<in> set attractions \<and>
         (\<exists>pref \<in> set preferences. \<exists>kw \<in> set (dict_get category_keywords pref []).
            sublist kw (lower a) \<and> (\<exists>s. sublist s a \<and> lower s = kw))"
proof -
  from assms(3) have "a \<in> set attractions"
    and "\<exists>pref \<in> set preferences. \<exists>kw \<in> set (dict_get category_keywords pref []). sublist kw (lower a)"
    unfolding filter_attractions_selected [OF assms(1,2)] by auto
  then show ?thesis using sublist_lower_preimage by blast
qed

theorem filter_attractions_keyword_witness:
  "[''historical''] \<noteq> [] \<and> ''all'' \<notin> set [''historical''] \<and>
   ''Fort Aguada'' \<in> set (filter_attractions [''Baga Beach'', ''Fort Aguada''] [''historical'']) \<and>
   (\<exists>pref \<in> set [''historical'']. \<exists>kw \<in> set (dict_get category_keywords pref []).
      sublist kw (lower ''Fort Aguada'') \<and> (\<exists>s. sublist s ''Fort Aguada'' \<and> lower s = kw))"
proof -
  have h: "''Fort Aguada'' \<in> set (filter_attractions [''Baga Beach'', ''Fort Aguada''] [''historical''])"
    by code_simp
  show ?thesis
    using h filter_attractions_keyword [of "[''historical'']" "''Fort Aguada''" "[''Baga Beach'', ''Fort Aguada'']"]
    by simp
qed

text \<open>
  C6. With an empty preference list, or with one that contains "all",
  \<open>filter_attractions\<close> returns the attraction list it was given, unchanged.
\<close>

theorem filter_attractions_identity:
  "preferences = [] \<or> ''all'' \<in> set preferences \<Longrightarrow>
     filter_attractions attractions preferences = attractions"
  by (simp add: filter_attractions_def)

theorem filter_attractions_identity_witness:
  "(([] :: string list) = [] \<or> ''all'' \<in> set ([] :: string list)) \<and>
   filter_attractions [''Fort Aguada'', ''Casino''] [] = [''Fort Aguada'', ''Casino''] \<and>
   ([''fun'', ''all''] = [] \<or> ''all'' \<in> set [''fun'', ''all'']) \<and>
   filter_attractions [''Fort Aguada'', ''Casino''] [''fun'', ''all''] = [''Fort Aguada'', ''Casino'']"
  using filter_attractions_identity [of "[]" "[''Fort Aguada'', ''Casino'']"]
    filter_attractions_identity [of "[''fun'', ''all'']" "[''Fort Aguada'', ''Casino'']"]
  by simp

lemma category_keywords_unknown:
  "pref \<notin> {''historical'', ''fun'', ''museum'', ''nature''} \<Longrightarrow>
     dict_get category_keywords pref [] = []"
  by (simp add: dict_get_def category_keywords_def)

text \<open>
  C9. When the preference list is non-empty, does not contain "all" and holds no label
  among historical, fun, museum and nature, \<open>filter_attractions\<close> returns the empty
  list: a label that is not a key of the dictionary adds no keyword.
\<close>

theorem filter_attractions_unknown_labels:
  assumes "preferences \<noteq> []" and "''all'' \<notin> set preferences"
    and "set preferences \<inter> {''historical'', ''fun'', ''museum'', ''nature''} = {}"
  shows "filter_attractions attractions preferences = []"
proof -
  have "dict_get category_keywords pref [] = []" if "pref \<in> set preferences" for pref
    using that assms(3) by (intro category_keywords_unknown) blast
  then have c: "concat (map (\<lambda>pref. dict_get category_keywords pref []) preferences) = []"
    by simp
  from assms(1,2) show ?thesis
    by (simp add: filter_attractions_def c)
qed

theorem filter_attractions_unknown_labels_witness:
  "[''beaches'', ''Nature''] \<noteq> [] \<and> ''all'' \<notin> set [''beaches'', ''Nature''] \<and>
   set [''beaches'', ''Nature''] \<inter> {''historical'', ''fun'', ''museum'', ''nature''} = {} \<and>
   filter_attractions [''Baga Beach'', ''Nature Park''] [''beaches'', ''Nature''] = []"
  using filter_attractions_unknown_labels [of "[''beaches'', ''Nature'']" "[''Baga Beach'', ''Nature Park'']"]
  by simp

subsection \<open>Random draws\<close>

lemma shuffle_from_mset:
  "k < length x \<Longrightarrow> mset (fst (shuffle_from k x g)) = mset x"
proof (induction k arbitrary: x g)
  case 0
  then show ?case by simp
next
  case (Suc k)
  obtain j g' where r: "randbelow (Suc k + 1) g = (j, g')" by (cases "randbelow (Suc k + 1) g")
  then have j: "j < Suc k + 1" by (auto simp: randbelow_def)
  with Suc.prems have jl: "j < length x" by simp
  have "mset (x[Suc k := x ! j, j := x ! Suc k]) = mset x"
    using Suc.prems jl by (simp add: mset_swap)
  moreover have "k < length (x[Suc k := x ! j, j := x ! Suc k])" using Suc.prems by simp
  ultimately show ?case using Suc.IH r by simp
qed

lemma shuffle_mset: "mset (fst (shuffle x g)) = mset x"
proof (cases x)
  case Nil
  then show ?thesis by (simp add: shuffle_def)
next
  case (Cons a as)
  then show ?thesis unfolding shuffle_def by (intro shuffle_from_mset) simp
qed

lemma shuffle_length: "length (fst (shuffle x g)) = length x"
  using shuffle_mset [of x g] by (metis size_mset)

lemma randint_range:
  assumes "a \<le> b" and "randint a b g = (r, g')"
  shows "a \<le> r \<and> r \<le> b"
proof -
  define n where "n = nat (b - a + 1)"
  have "0 < n" using assms(1) by (simp add: n_def)
  then have "g 0 mod n < n" by (rule mod_less_divisor)
  then have "int (g 0 mod n) < int n" by (simp only: of_nat_less_iff)
  moreover have "int n = b - a + 1" using assms(1) by (simp add: n_def)
  moreover have "r = a + int (g 0 mod n)"
    using assms(2) by (simp add: randint_def randbelow_def n_def)
  ultimately show ?thesis by linarith
qed

lemma choice_Inr: "choice seq g = (Inr x, g') \<Longrightarrow> x \<in> set seq"
  by (auto simp: choice_def randbelow_def split: if_splits)

subsection \<open>Day labels and the itinerary\<close>

lemma digit_char_inj: "a < 10 \<Longrightarrow> b < 10 \<Longrightarrow> digit_char a = digit_char b \<Longrightarrow> a = b"
proof -
  assume a: "a < 10" and b: "b < 10" and e: "digit_char a = digit_char b"
  from e have "(of_char (digit_char a) :: nat) = of_char (digit_char b)" by simp
  with a b show "a = b" by (simp add: digit_char_def)
qed

lemma str_nat_nonempty: "str_nat n \<noteq> []"
  by (subst str_nat.simps) simp

lemma str_nat_inj: "str_nat m = str_nat n \<Longrightarrow> m = n"
proof (induction m arbitrary: n rule: str_nat.induct)
  case (1 m)
  show ?case
  proof (cases "m < 10")
    case m: True
    show ?thesis
    proof (cases "n < 10")
      case True
      with m "1.prems" show ?thesis
        by (subst (asm) str_nat.simps, subst (asm) (2) str_nat.simps) (simp add: digit_char_inj)
    next
      case False
      with m "1.prems" str_nat_nonempty [of "n div 10"] show ?thesis
        by (subst (asm) str_nat.simps, subst (asm) (2) str_nat.simps) simp
    qed
  next
    case m: False
    show ?thesis
    proof (cases "n < 10")
      case True
      with m "1.prems" str_nat_nonempty [of "m div 10"] show ?thesis
        by (subst (asm) str_nat.simps, subst (asm) (2) str_nat.simps) simp
    next
      case False
      from m False "1.prems" have e: "str_nat (m div 10) = str_nat (n div 10)"
        and d: "digit_char (m mod 10) = digit_char (n mod 10)"
        by (subst (asm) str_nat.simps, subst (asm) (2) str_nat.simps, simp)+
      from "1.IH" [OF m e] have "m div 10 = n div 10" .
      moreover from d have "m mod 10 = n mod 10" by (intro digit_char_inj) simp_all
      ultimately show ?thesis by (metis div_mult_mod_eq)
    qed
  qed
qed

lemma day_label_inj: "day_label i = day_label j \<Longrightarrow> i = j"
  using str_nat_inj [of "i + 1" "j + 1"] by (simp add: day_label_def)

lemma distinct_day_labels: "distinct (map day_label [0..<n])"
  by (auto simp: distinct_map inj_on_def dest: day_label_inj)

lemma update_fresh: "k \<notin> fst ` set al \<Longrightarrow> AList.update k v al = al @ [(k, v)]"
  by (induction al) auto

lemma fold_update_fresh:
  "distinct (map key is) \<Longrightarrow> key ` set is \<inter> fst ` set al = {} \<Longrightarrow>
     fold (\<lambda>i d. AList.update (key i) (val i) d) is al = al @ map (\<lambda>i. (key i, val i)) is"
proof (induction "is" arbitrary: al)
  case Nil
  then show ?case by simp
next
  case (Cons i "is")
  from Cons.prems have fresh: "key i \<notin> fst ` set al" by auto
  have "key ` set is \<inter> fst ` set (al @ [(key i, val i)]) = {}"
    using Cons.prems by auto
  with Cons.IH [of "al @ [(key i, val i)]"] Cons.prems fresh show ?case
    by (simp add: update_fresh)
qed

lemma build_itinerary_eq:
  assumes "days \<noteq> 0"
  shows "build_itinerary attractions days =
           Inr (map (\<lambda>i. (day_label i,
                           take (nat (max 1 (int (length attractions) div days)))
                                (drop (i * nat (max 1 (int (length attractions) div days))) attractions)))
                    [0..<nat days])"
proof -
  have s: "slice attractions a (n + a) = take n (drop a attractions)" for a n
    by (simp add: slice_def)
  show ?thesis
    using assms distinct_day_labels [of "nat days"]
    by (simp add: build_itinerary_def floordiv_def Let_def s fold_update_fresh)
qed

lemma build_itinerary_zero: "build_itinerary attractions 0 = Inl ZeroDivisionError"
  by (simp add: build_itinerary_def floordiv_def)

lemma concat_chunks: "concat (map (\<lambda>i. take n (drop (i * n) xs)) [0..<k]) = take (k * n) xs"
proof (induction k)
  case 0
  then show ?case by simp
next
  case (Suc k)
  have "Suc k * n = k * n + n" by simp
  then have "take (Suc k * n) xs = take (k * n) xs @ take n (drop (k * n) xs)"
    by (simp only: take_add)
  with Suc show ?case by simp
qed

lemma build_itinerary_Inr:
  assumes "build_itinerary attractions days = Inr itinerary"
  shows "itinerary =
           map (\<lambda>i. (day_label i,
                      take (nat (max 1 (int (length attractions) div days)))
                           (drop (i * nat (max 1 (int (length attractions) div days))) attractions)))
               [0..<nat days]"
proof -
  from assms have "days \<noteq> 0" by (auto simp: build_itinerary_zero)
  from build_itinerary_eq [OF this, of attractions] assms show ?thesis by simp
qed

lemma map_of_day_labels:
  "i < n \<Longrightarrow> map_of (map (\<lambda>i. (day_label i, f i)) [0..<n]) (day_label i) = Some (f i)"
proof -
  assume "i < n"
  have "map_of (map (\<lambda>i. (day_label i, f i)) [0..<n]) (day_label i) = Some (f i)"
    if "i \<in> set [0..<n]"
    using that by (intro map_of_is_SomeI) (auto simp: distinct_day_labels comp_def)
  with \<open>i < n\<close> show ?thesis by simp
qed

subsection \<open>The two scrapers\<close>

lemma scan_cards_Inr:
  "scan_cards cap cards valid g = (Inr hs, g') \<Longrightarrow>
     \<exists>new. hs = valid @ new \<and>
       (\<forall>h \<in> set new. of_int (price h) \<le> cap \<and>
          (\<exists>c \<in> set cards. card_name_price c = Some (Inr (name h, price h)))) \<and>
       (new = [] \<longleftrightarrow>
          \<not> (\<exists>c \<in> set cards. \<exists>nm p. card_name_price c = Some (Inr (nm, p)) \<and> of_int p \<le> cap))"
proof (induction cards arbitrary: valid g)
  case Nil
  then show ?case by simp
next
  case (Cons c cards)
  show ?case
  proof (cases "card_name_price c")
    case None
    with Cons.prems have "scan_cards cap cards valid g = (Inr hs, g')" by simp
    from Cons.IH [OF this] None show ?thesis by auto
  next
    case (Some r)
    show ?thesis
    proof (cases r)
      case (Inl e)
      with Some Cons.prems show ?thesis by simp
    next
      case (Inr np)
      obtain nm p where np: "np = (nm, p)" by (cases np)
      obtain rr g1 where cr: "card_rating c g = (rr, g1)" by (cases "card_rating c g")
      show ?thesis
      proof (cases rr)
        case (Inl e)
        with Some Inr np cr Cons.prems show ?thesis by simp
      next
        case r: (Inr rt)
        show ?thesis
        proof (cases "of_int p \<le> cap")
          case True
          with Some Inr np cr r Cons.prems
          have "scan_cards cap cards (valid @ [\<lparr>name = nm, price = p, rating = rt\<rparr>]) g1 = (Inr hs, g')"
            by simp
          from Cons.IH [OF this] obtain new where
            n: "hs = (valid @ [\<lparr>name = nm, price = p, rating = rt\<rparr>]) @ new"
            "\<forall>h \<in> set new. of_int (price h) \<le> cap \<and>
               (\<exists>c \<in> set cards. card_name_price c = Some (Inr (name h, price h)))"
            by blast
          let ?new = "\<lparr>name = nm, price = p, rating = rt\<rparr> # new"
          have "hs = valid @ ?new" using n(1) by simp
          moreover have "\<forall>h \<in> set ?new. of_int (price h) \<le> cap \<and>
               (\<exists>c' \<in> set (c # cards). card_name_price c' = Some (Inr (name h, price h)))"
            using n(2) True Some Inr np by auto
          moreover have "?new = [] \<longleftrightarrow>
             \<not> (\<exists>c' \<in> set (c # cards). \<exists>nm p. card_name_price c' = Some (Inr (nm, p)) \<and> of_int p \<le> cap)"
            using True Some Inr np by auto
          ultimately show ?thesis by blast
        next
          case False
          with Some Inr np cr r Cons.prems
          have "scan_cards cap cards valid g1 = (Inr hs, g')" by simp
          from Cons.IH [OF this] False Some Inr np show ?thesis by auto
        qed
      qed
    qed
  qed
qed

lemma hotels_try_cases:
  obtains (raised) e where "hotels_page w (hotels_url dest) = Raised e"
      "hotels_try w dest budget days g = (Inl e, g)"
  | (status) st r where "hotels_page w (hotels_url dest) = Response st r" "st \<noteq> 200"
      "hotels_try w dest budget days g = (Inr [], g)"
  | (parse) e where "hotels_page w (hotels_url dest) = Response 200 (Inl e)"
      "hotels_try w dest budget days g = (Inl e, g)"
  | (scan_raised) cards e g' where "hotels_page w (hotels_url dest) = Response 200 (Inr cards)"
      "scan_cards (of_int budget * (1 / 2)) cards [] g = (Inl e, g')"
      "hotels_try w dest budget days g = (Inl e, g')"
  | (scanned) cards valid g' where "hotels_page w (hotels_url dest) = Response 200 (Inr cards)"
      "scan_cards (of_int budget * (1 / 2)) cards [] g = (Inr valid, g')"
      "hotels_try w dest budget days g =
         (Inr (take 10 (if valid = [] then fallback_hotels else valid)), g')"
proof (cases "hotels_page w (hotels_url dest)")
  case (Raised e)
  then show ?thesis by (intro raised [of e]) (simp_all add: hotels_try_def)
next
  case (Response st r)
  show ?thesis
  proof (cases "st = 200")
    case False
    with Response show ?thesis by (intro status [of st r]) (simp_all add: hotels_try_def)
  next
    case True
    show ?thesis
    proof (cases r)
      case (Inl e)
      with Response True show ?thesis by (intro parse [of e]) (simp_all add: hotels_try_def)
    next
      case (Inr cards)
      obtain sr g' where sc: "scan_cards (of_int budget * (1 / 2)) cards [] g = (sr, g')"
        by (cases "scan_cards (of_int budget * (1 / 2)) cards [] g")
      show ?thesis
      proof (cases sr)
        case (Inl e)
        with Response True Inr sc show ?thesis
          by (intro scan_raised [of cards e g']) (simp_all add: hotels_try_def)
      next
        case v: (Inr valid)
        with Response True Inr sc show ?thesis
          by (intro scanned [of cards valid g']) (simp_all add: hotels_try_def)
      qed
    qed
  qed
qed

lemma fallback_hotels_length: "length fallback_hotels = 3"
  by (simp add: fallback_hotels_def)

lemma scrape_holidify_hotels_cases:
  obtains (failed) e g' where
      "scrape_holidify_hotels w dest budget days g = (Inr [], g', [Hotel_scraping_error e])"
  | (status) st r where "hotels_page w (hotels_url dest) = Response st r" "st \<noteq> 200"
      "scrape_holidify_hotels w dest budget days g = (Inr [], g, [])"
  | (scanned) cards valid g' where "hotels_page w (hotels_url dest) = Response 200 (Inr cards)"
      "scan_cards (of_int budget * (1 / 2)) cards [] g = (Inr valid, g')"
      "scrape_holidify_hotels w dest budget days g =
         (Inr (take 10 (if valid = [] then fallback_hotels else valid)), g', [])"
proof (cases w dest budget days g rule: hotels_try_cases)
  case (raised e)
  show ?thesis
    by (rule failed [of g e]) (simp_all add: scrape_holidify_hotels_def raised)
next
  case (status st r)
  show ?thesis
    by (rule that(2) [of st r]) (simp_all add: scrape_holidify_hotels_def status)
next
  case (parse e)
  show ?thesis
    by (rule failed [of g e]) (simp_all add: scrape_holidify_hotels_def parse)
next
  case (scan_raised cards e g')
  show ?thesis
    by (rule failed [of g' e]) (simp_all add: scrape_holidify_hotels_def scan_raised)
next
  case (scanned cards valid g')
  show ?thesis
    by (rule that(3) [of cards valid g', OF scanned(1) scanned(2)])
      (simp add: scrape_holidify_hotels_def scanned(3))
qed

lemma scrape_holidify_hotels_bound:
  "\<exists>hs. fst (scrape_holidify_hotels w dest budget days g) = Inr hs \<and> length hs \<le> 10 \<and>
        (hs = fallback_hotels \<or> (\<forall>h \<in> set hs. of_int (price h) \<le> of_int budget * (1 / 2 :: rat)))"
proof (cases w dest budget days g rule: scrape_holidify_hotels_cases)
  case (failed e g')
  then show ?thesis by simp
next
  case (status st r)
  then show ?thesis by simp
next
  case (scanned cards valid g')
  from scan_cards_Inr [OF scanned(2)] have
    v: "\<forall>h \<in> set valid. of_int (price h) \<le> of_int budget * (1 / 2 :: rat)"
    by auto
  show ?thesis
  proof (cases "valid = []")
    case True
    with scanned(3) show ?thesis by (simp add: fallback_hotels_length)
  next
    case False
    have "\<forall>h \<in> set (take 10 valid). of_int (price h) \<le> of_int budget * (1 / 2 :: rat)"
      using v by (meson in_set_takeD)
    with False scanned(3) show ?thesis by simp
  qed
qed

lemma scrape_holidify_hotels_fetched:
  assumes r: "fst (scrape_holidify_hotels w dest budget days g) = Inr hs"
    and page: "hotels_page w (hotels_url dest) = Response 200 (Inr cards)"
    and quiet: "snd (snd (scrape_holidify_hotels w dest budget days g)) = []"
  shows "if \<exists>c \<in> set cards. \<exists>nm p. card_name_price c = Some (Inr (nm, p)) \<and>
                                       of_int p \<le> of_int budget * (1 / 2 :: rat)
         then hs \<noteq> [] \<and>
              (\<forall>h \<in> set hs. of_int (price h) \<le> of_int budget * (1 / 2 :: rat) \<and>
                 (\<exists>c \<in> set cards. card_name_price c = Some (Inr (name h, price h))))
         else hs = fallback_hotels"
proof (cases w dest budget days g rule: scrape_holidify_hotels_cases)
  case (failed e g')
  with quiet show ?thesis by simp
next
  case (status st r)
  with page show ?thesis by simp
next
  case (scanned cards' valid g')
  from scanned(1) page have [simp]: "cards' = cards" by simp
  from scanned(3) r have hs: "hs = take 10 (if valid = [] then fallback_hotels else valid)"
    by simp
  from scan_cards_Inr [OF scanned(2)] have
    v: "\<forall>h \<in> set valid. of_int (price h) \<le> of_int budget * (1 / 2 :: rat) \<and>
          (\<exists>c \<in> set cards. card_name_price c = Some (Inr (name h, price h)))"
    and e: "valid = [] \<longleftrightarrow>
        \<not> (\<exists>c \<in> set cards. \<exists>nm p. card_name_price c = Some (Inr (nm, p)) \<and>
                                  of_int p \<le> of_int budget * (1 / 2 :: rat))"
    by auto
  show ?thesis
  proof (cases "valid = []")
    case True
    with hs have "hs = fallback_hotels" by (simp add: fallback_hotels_length)
    with True e show ?thesis by (simp only: if_False simp_thms)
  next
    case False
    with hs have h: "hs = take 10 valid" by simp
    have a: "\<forall>h \<in> set hs. of_int (price h) \<le> of_int budget * (1 / 2 :: rat) \<and>
          (\<exists>c \<in> set cards. card_name_price c = Some (Inr (name h, price h)))"
      unfolding h using v by (meson in_set_takeD)
    have ne: "hs \<noteq> []" using False h by simp
    from False e have "\<exists>c \<in> set cards. \<exists>nm p. card_name_price c = Some (Inr (nm, p)) \<and>
                                  of_int p \<le> of_int budget * (1 / 2 :: rat)" by (simp only: simp_thms)
    with a ne show ?thesis by (simp only: if_True simp_thms)
  qed
qed

text \<open>
  C1 (amended). Every list that \<open>scrape_holidify_hotels\<close> returns has at most 10 entries,
  and is either the fixed fallback list or holds only entries whose price is at most half
  the budget. When the page is read with status 200 and nothing raises (no diagnostic is
  printed): if some card yields a name and a price within that ceiling, the list is not
  empty and every entry is the name and price of such a card; if no card does, the list is
  the fallback list (Budget Stay 1200, Hotel Comfort Inn 1400, City Lodge 1000), whatever
  the budget is.
\<close>

theorem scrape_holidify_hotels_result:
  "\<exists>hs. fst (scrape_holidify_hotels w dest budget days g) = Inr hs \<and>
        length hs \<le> 10 \<and>
        (hs = fallback_hotels \<or> (\<forall>h \<in> set hs. of_int (price h) \<le> of_int budget * (1 / 2 :: rat))) \<and>
        (\<forall>cards. hotels_page w (hotels_url dest) = Response 200 (Inr cards) \<and>
                 snd (snd (scrape_holidify_hotels w dest budget days g)) = [] \<longrightarrow>
           (if \<exists>c \<in> set cards. \<exists>nm p. card_name_price c = Some (Inr (nm, p)) \<and>
                                       of_int p \<le> of_int budget * (1 / 2 :: rat)
            then hs \<noteq> [] \<and>
                 (\<forall>h \<in> set hs. of_int (price h) \<le> of_int budget * (1 / 2 :: rat) \<and>
                    (\<exists>c \<in> set cards. card_name_price c = Some (Inr (name h, price h))))
            else hs = fallback_hotels)) \<and>
        fallback_hotels =
          [\<lparr>name = ''Budget Stay'', price = 1200, rating = 39 / 10\<rparr>,
           \<lparr>name = ''Hotel Comfort Inn'', price = 1400, rating = 42 / 10\<rparr>,
           \<lparr>name = ''City Lodge'', price = 1000, rating = 4\<rparr>]"
proof -
  from scrape_holidify_hotels_bound [of w dest budget days g] obtain hs where
    r: "fst (scrape_holidify_hotels w dest budget days g) = Inr hs"
    and l: "length hs \<le> 10"
    and b: "hs = fallback_hotels \<or> (\<forall>h \<in> set hs. of_int (price h) \<le> of_int budget * (1 / 2 :: rat))"
    by blast
  have f: "\<forall>cards. hotels_page w (hotels_url dest) = Response 200 (Inr cards) \<and>
                 snd (snd (scrape_holidify_hotels w dest budget days g)) = [] \<longrightarrow>
           (if \<exists>c \<in> set cards. \<exists>nm p. card_name_price c = Some (Inr (nm, p)) \<and>
                                       of_int p \<le> of_int budget * (1 / 2 :: rat)
            then hs \<noteq> [] \<and>
                 (\<forall>h \<in> set hs. of_int (price h) \<le> of_int budget * (1 / 2 :: rat) \<and>
                    (\<exists>c \<in> set cards. card_name_price c = Some (Inr (name h, price h))))
            else hs = fallback_hotels)"
    using scrape_holidify_hotels_fetched [OF r] by blast
  have fb: "fallback_hotels =
          [\<lparr>name = ''Budget Stay'', price = 1200, rating = 39 / 10\<rparr>,
           \<lparr>name = ''Hotel Comfort Inn'', price = 1400, rating = 42 / 10\<rparr>,
           \<lparr>name = ''City Lodge'', price = 1000, rating = 4\<rparr>]"
    by (simp add: fallback_hotels_def)
  from r l b f fb show ?thesis by (intro exI [of _ hs] conjI)
qed

theorem scrape_holidify_hotels_result_witness:
  "hotels_page
     \<lparr>sightseeing_page = (\<lambda>u. Response 200 (Inr [])),
      hotels_page = (\<lambda>u. Response 200 (Inr
         [\<lparr>name_tag = Some ''Sea Inn'', price_tag = Some (rupee @ '' 2,500''),
            text_sep = ''Sea Inn 4.3'', text_all = ''4.3''\<rparr>]))\<rparr>
     (hotels_url ''Goa'') =
   Response 200 (Inr
         [\<lparr>name_tag = Some ''Sea Inn'', price_tag = Some (rupee @ '' 2,500''),
            text_sep = ''Sea Inn 4.3'', text_all = ''4.3''\<rparr>]) \<and>
   snd (snd (scrape_holidify_hotels
     \<lparr>sightseeing_page = (\<lambda>u. Response 200 (Inr [])),
      hotels_page = (\<lambda>u. Response 200 (Inr
         [\<lparr>name_tag = Some ''Sea Inn'', price_tag = Some (rupee @ '' 2,500''),
            text_sep = ''Sea Inn 4.3'', text_all = ''4.3''\<rparr>]))\<rparr>
     ''Goa'' 20000 3 (\<lambda>n. 0))) = [] \<and>
   fst (scrape_holidify_hotels
     \<lparr>sightseeing_page = (\<lambda>u. Response 200 (Inr [])),
      hotels_page = (\<lambda>u. Response 200 (Inr
         [\<lparr>name_tag = Some ''Sea Inn'', price_tag = Some (rupee @ '' 2,500''),
            text_sep = ''Sea Inn 4.3'', text_all = ''4.3''\<rparr>]))\<rparr>
     ''Goa'' 20000 3 (\<lambda>n. 0)) =
     Inr [\<lparr>name = ''Sea Inn'', price = 2500, rating = 43 / 10\<rparr>] \<and>
   length [\<lparr>name = ''Sea Inn'', price = 2500, rating = 43 / 10\<rparr>] \<le> 10 \<and>
   (of_int 2500 :: rat) \<le> of_int 20000 * (1 / 2)"
  (is "?page \<and> ?quiet \<and> fst ?run = Inr ?out \<and> ?len \<and> ?le")
proof -
  have page: ?page by simp
  have ev: "(case ?run of (r, g', out) \<Rightarrow> (r, out)) = (Inr ?out, [])" by code_simp
  have res: "fst ?run = Inr ?out" using ev by (cases ?run) simp
  have quiet: ?quiet using ev by (cases ?run) simp
  from scrape_holidify_hotels_result
    [of "\<lparr>sightseeing_page = (\<lambda>u. Response 200 (Inr [])),
      hotels_page = (\<lambda>u. Response 200 (Inr
         [\<lparr>name_tag = Some ''Sea Inn'', price_tag = Some (rupee @ '' 2,500''),
            text_sep = ''Sea Inn 4.3'', text_all = ''4.3''\<rparr>]))\<rparr>"
      "''Goa''" 20000 3 "\<lambda>n. 0"]
  obtain hs where r: "fst ?run = Inr hs" and l: "length hs \<le> 10"
    and b: "hs = fallback_hotels \<or> (\<forall>h \<in> set hs. of_int (price h) \<le> of_int 20000 * (1 / 2 :: rat))"
    by blast
  from r res have hs: "hs = ?out" by (simp only: sum.inject)
  have "hs \<noteq> fallback_hotels" unfolding hs by (simp add: fallback_hotels_def)
  with b hs have ?le by simp
  moreover from l hs have ?len by simp
  ultimately show ?thesis using page quiet res by (intro conjI)
qed

theorem scrape_holidify_hotels_fallback_over_budget:
  "fst (scrape_holidify_hotels
          \<lparr>sightseeing_page = (\<lambda>u. Response 200 (Inr [])),
           hotels_page = (\<lambda>u. Response 200 (Inr []))\<rparr>
          ''Goa'' 1000 3 (\<lambda>n. 0)) =
     Inr [\<lparr>name = ''Budget Stay'', price = 1200, rating = 39 / 10\<rparr>,
          \<lparr>name = ''Hotel Comfort Inn'', price = 1400, rating = 42 / 10\<rparr>,
          \<lparr>name = ''City Lodge'', price = 1000, rating = 4\<rparr>] \<and>
   \<not> (of_int (price \<lparr>name = ''Budget Stay'', price = 1200, rating = 39 / 10\<rparr>)
         \<le> of_int 1000 * (1 / 2 :: rat))"
  by (simp add: scrape_holidify_hotels_def hotels_try_def fallback_hotels_def)

lemma scrape_holidify_attractions_total:
  "\<exists>xs. scrape_holidify_attractions w dest = Inr xs"
  by (cases "attractions_try w dest") (simp_all add: scrape_holidify_attractions_def)

lemma scrape_holidify_hotels_total:
  "\<exists>hs. fst (scrape_holidify_hotels w dest budget days g) = Inr hs"
  by (cases w dest budget days g rule: scrape_holidify_hotels_cases) simp_all

text \<open>
  C7. Neither scraper raises: each returns a list. \<open>scrape_holidify_attractions\<close>
  returns the empty list when the request raises, when the status is not 200 and when
  parsing raises. \<open>scrape_holidify_hotels\<close> returns the empty list in the same three
  cases and when the conversion of a price raises; it prints its one diagnostic line
  exactly when an exception was caught, and nothing on a status other than 200 or on a
  run without exception.
\<close>

theorem scrapers_convert_failures_to_empty:
  "(\<exists>xs. scrape_holidify_attractions w dest = Inr xs) \<and>
   (\<forall>e. sightseeing_page w (attractions_url dest) = Raised e \<longrightarrow>
        scrape_holidify_attractions w dest = Inr []) \<and>
   (\<forall>st r. sightseeing_page w (attractions_url dest) = Response st r \<and> st \<noteq> 200 \<longrightarrow>
        scrape_holidify_attractions w dest = Inr []) \<and>
   (\<forall>e. sightseeing_page w (attractions_url dest) = Response 200 (Inl e) \<longrightarrow>
        scrape_holidify_attractions w dest = Inr []) \<and>
   (\<exists>hs. fst (scrape_holidify_hotels w dest budget days g) = Inr hs) \<and>
   (\<forall>e. hotels_page w (hotels_url dest) = Raised e \<longrightarrow>
        fst (scrape_holidify_hotels w dest budget days g) = Inr [] \<and>
        snd (snd (scrape_holidify_hotels w dest budget days g)) = [Hotel_scraping_error e]) \<and>
   (\<forall>st r. hotels_page w (hotels_url dest) = Response st r \<and> st \<noteq> 200 \<longrightarrow>
        fst (scrape_holidify_hotels w dest budget days g) = Inr [] \<and>
        snd (snd (scrape_holidify_hotels w dest budget days g)) = []) \<and>
   (\<forall>e. hotels_page w (hotels_url dest) = Response 200 (Inl e) \<longrightarrow>
        fst (scrape_holidify_hotels w dest budget days g) = Inr [] \<and>
        snd (snd (scrape_holidify_hotels w dest budget days g)) = [Hotel_scraping_error e]) \<and>
   (\<forall>cards e. hotels_page w (hotels_url dest) = Response 200 (Inr cards) \<and>
        fst (scan_cards (of_int budget * (1 / 2)) cards [] g) = Inl e \<longrightarrow>
        fst (scrape_holidify_hotels w dest budget days g) = Inr [] \<and>
        snd (snd (scrape_holidify_hotels w dest budget days g)) = [Hotel_scraping_error e]) \<and>
   (\<forall>cards hs. hotels_page w (hotels_url dest) = Response 200 (Inr cards) \<and>
        fst (scan_cards (of_int budget * (1 / 2)) cards [] g) = Inr hs \<longrightarrow>
        snd (snd (scrape_holidify_hotels w dest budget days g)) = [])"
proof (intro conjI allI impI)
  show "\<exists>xs. scrape_holidify_attractions w dest = Inr xs"
    by (rule scrape_holidify_attractions_total)
  show "\<exists>hs. fst (scrape_holidify_hotels w dest budget days g) = Inr hs"
    by (rule scrape_holidify_hotels_total)
next
  fix e assume "sightseeing_page w (attractions_url dest) = Raised e"
  then show "scrape_holidify_attractions w dest = Inr []"
    by (simp add: scrape_holidify_attractions_def attractions_try_def)
next
  fix st r assume "sightseeing_page w (attractions_url dest) = Response st r \<and> st \<noteq> 200"
  then show "scrape_holidify_attractions w dest = Inr []"
    by (simp add: scrape_holidify_attractions_def attractions_try_def)
next
  fix e assume "sightseeing_page w (attractions_url dest) = Response 200 (Inl e)"
  then show "scrape_holidify_attractions w dest = Inr []"
    by (simp add: scrape_holidify_attractions_def attractions_try_def)
next
  fix e assume a: "hotels_page w (hotels_url dest) = Raised e"
  then show "fst (scrape_holidify_hotels w dest budget days g) = Inr []"
    and "snd (snd (scrape_holidify_hotels w dest budget days g)) = [Hotel_scraping_error e]"
    by (simp_all add: scrape_holidify_hotels_def hotels_try_def)
next
  fix st r assume a: "hotels_page w (hotels_url dest) = Response st r \<and> st \<noteq> 200"
  then show "fst (scrape_holidify_hotels w dest budget days g) = Inr []"
    and "snd (snd (scrape_holidify_hotels w dest budget days g)) = []"
    by (simp_all add: scrape_holidify_hotels_def hotels_try_def)
next
  fix e assume a: "hotels_page w (hotels_url dest) = Response 200 (Inl e)"
  then show "fst (scrape_holidify_hotels w dest budget days g) = Inr []"
    and "snd (snd (scrape_holidify_hotels w dest budget days g)) = [Hotel_scraping_error e]"
    by (simp_all add: scrape_holidify_hotels_def hotels_try_def)
next
  fix cards e
  assume a: "hotels_page w (hotels_url dest) = Response 200 (Inr cards) \<and>
        fst (scan_cards (of_int budget * (1 / 2)) cards [] g) = Inl e"
  obtain r g' where s: "scan_cards (of_int budget * (1 / 2)) cards [] g = (r, g')"
    by (cases "scan_cards (of_int budget * (1 / 2)) cards [] g")
  with a have t: "hotels_try w dest budget days g = (Inl e, g')"
    unfolding hotels_try_def by (simp add: Let_def)
  show "fst (scrape_holidify_hotels w dest budget days g) = Inr []"
    and "snd (snd (scrape_holidify_hotels w dest budget days g)) = [Hotel_scraping_error e]"
    by (simp_all add: scrape_holidify_hotels_def t)
next
  fix cards hs
  assume a: "hotels_page w (hotels_url dest) = Response 200 (Inr cards) \<and>
        fst (scan_cards (of_int budget * (1 / 2)) cards [] g) = Inr hs"
  obtain r g' where s: "scan_cards (of_int budget * (1 / 2)) cards [] g = (r, g')"
    by (cases "scan_cards (of_int budget * (1 / 2)) cards [] g")
  with a have t: "hotels_try w dest budget days g =
      (Inr (take 10 (if hs = [] then fallback_hotels else hs)), g')"
    unfolding hotels_try_def by (simp add: Let_def)
  show "snd (snd (scrape_holidify_hotels w dest budget days g)) = []"
    by (simp add: scrape_holidify_hotels_def t)
qed

theorem scrapers_convert_failures_to_empty_witness:
  "(sightseeing_page
      \<lparr>sightseeing_page = (\<lambda>u. Raised RequestException), hotels_page = (\<lambda>u. Raised RequestException)\<rparr> (attractions_url ''Goa'') = Raised RequestException) \<and>
   (scrape_holidify_attractions
      \<lparr>sightseeing_page = (\<lambda>u. Raised RequestException), hotels_page = (\<lambda>u. Raised RequestException)\<rparr> ''Goa'' = Inr []) \<and>
   (hotels_page
      \<lparr>sightseeing_page = (\<lambda>u. Raised RequestException), hotels_page = (\<lambda>u. Raised RequestException)\<rparr> (hotels_url ''Goa'') = Raised RequestException) \<and>
   (fst (scrape_holidify_hotels
      \<lparr>sightseeing_page = (\<lambda>u. Raised RequestException), hotels_page = (\<lambda>u. Raised RequestException)\<rparr> ''Goa'' 20000 3 (\<lambda>n. 0)) = Inr []) \<and>
   (snd (snd (scrape_holidify_hotels
      \<lparr>sightseeing_page = (\<lambda>u. Raised RequestException), hotels_page = (\<lambda>u. Raised RequestException)\<rparr> ''Goa'' 20000 3 (\<lambda>n. 0))) = [Hotel_scraping_error RequestException]) \<and>
   (sightseeing_page
      \<lparr>sightseeing_page = (\<lambda>u. Response 404 (Inr [])), hotels_page = (\<lambda>u. Response 404 (Inr []))\<rparr> (attractions_url ''Goa'') = Response 404 (Inr [])) \<and>
   ((404 :: int) \<noteq> 200) \<and>
   (scrape_holidify_attractions
      \<lparr>sightseeing_page = (\<lambda>u. Response 404 (Inr [])), hotels_page = (\<lambda>u. Response 404 (Inr []))\<rparr> ''Goa'' = Inr []) \<and>
   (hotels_page
      \<lparr>sightseeing_page = (\<lambda>u. Response 404 (Inr [])), hotels_page = (\<lambda>u. Response 404 (Inr []))\<rparr> (hotels_url ''Goa'') = Response 404 (Inr [])) \<and>
   (fst (scrape_holidify_hotels
      \<lparr>sightseeing_page = (\<lambda>u. Response 404 (Inr [])), hotels_page = (\<lambda>u. Response 404 (Inr []))\<rparr> ''Goa'' 20000 3 (\<lambda>n. 0)) = Inr []) \<and>
   (snd (snd (scrape_holidify_hotels
      \<lparr>sightseeing_page = (\<lambda>u. Response 404 (Inr [])), hotels_page = (\<lambda>u. Response 404 (Inr []))\<rparr> ''Goa'' 20000 3 (\<lambda>n. 0))) = []) \<and>
   (sightseeing_page
      \<lparr>sightseeing_page = (\<lambda>u. Response 200 (Inl ParseError)), hotels_page = (\<lambda>u. Response 200 (Inl ParseError))\<rparr> (attractions_url ''Goa'') = Response 200 (Inl ParseError)) \<and>
   (scrape_holidify_attractions
      \<lparr>sightseeing_page = (\<lambda>u. Response 200 (Inl ParseError)), hotels_page = (\<lambda>u. Response 200 (Inl ParseError))\<rparr> ''Goa'' = Inr []) \<and>
   (hotels_page
      \<lparr>sightseeing_page = (\<lambda>u. Response 200 (Inl ParseError)), hotels_page = (\<lambda>u. Response 200 (Inl ParseError))\<rparr> (hotels_url ''Goa'') = Response 200 (Inl ParseError)) \<and>
   (fst (scrape_holidify_hotels
      \<lparr>sightseeing_page = (\<lambda>u. Response 200 (Inl ParseError)), hotels_page = (\<lambda>u. Response 200 (Inl ParseError))\<rparr> ''Goa'' 20000 3 (\<lambda>n. 0)) = Inr []) \<and>
   (snd (snd (scrape_holidify_hotels
      \<lparr>sightseeing_page = (\<lambda>u. Response 200 (Inl ParseError)), hotels_page = (\<lambda>u. Response 200 (Inl ParseError))\<rparr> ''Goa'' 20000 3 (\<lambda>n. 0))) = [Hotel_scraping_error ParseError]) \<and>
   (hotels_page
      \<lparr>sightseeing_page = (\<lambda>u. Response 200 (Inr [])), hotels_page = (\<lambda>u. Response 200 (Inr [\<lparr>name_tag = Some ''Inn'', price_tag = Some (rupee @ '',''), text_sep = [], text_all = []\<rparr>]))\<rparr> (hotels_url ''Goa'') = Response 200 (Inr [\<lparr>name_tag = Some ''Inn'', price_tag = Some (rupee @ '',''), text_sep = [], text_all = []\<rparr>])) \<and>
   (fst (scan_cards (of_int 20000 * (1 / 2)) [\<lparr>name_tag = Some ''Inn'', price_tag = Some (rupee @ '',''), text_sep = [], text_all = []\<rparr>] [] (\<lambda>n. 0)) = Inl ValueError) \<and>
   (fst (scrape_holidify_hotels
      \<lparr>sightseeing_page = (\<lambda>u. Response 200 (Inr [])), hotels_page = (\<lambda>u. Response 200 (Inr [\<lparr>name_tag = Some ''Inn'', price_tag = Some (rupee @ '',''), text_sep = [], text_all = []\<rparr>]))\<rparr> ''Goa'' 20000 3 (\<lambda>n. 0)) = Inr []) \<and>
   (snd (snd (scrape_holidify_hotels
      \<lparr>sightseeing_page = (\<lambda>u. Response 200 (Inr [])), hotels_page = (\<lambda>u. Response 200 (Inr [\<lparr>name_tag = Some ''Inn'', price_tag = Some (rupee @ '',''), text_sep = [], text_all = []\<rparr>]))\<rparr> ''Goa'' 20000 3 (\<lambda>n. 0))) = [Hotel_scraping_error ValueError])"
  (is "?sA \<and> ?aA \<and> ?hA \<and> ?fA \<and> ?dA \<and> ?sB \<and> ?nB \<and> ?aB \<and> ?hB \<and> ?fB \<and> ?dB \<and> ?sC \<and> ?aC \<and> ?hC \<and> ?fC \<and> ?dC \<and> ?hD \<and> ?vD \<and> ?fD \<and> ?dD")
proof -
  have sA: ?sA by simp
  have hA: ?hA by simp
  have sB: ?sB by simp
  have nB: ?nB by simp
  have hB: ?hB by simp
  have sC: ?sC by simp
  have hC: ?hC by simp
  have hD: ?hD by simp
  have vD: ?vD by code_simp
  note A = scrapers_convert_failures_to_empty
    [of "\<lparr>sightseeing_page = (\<lambda>u. Raised RequestException), hotels_page = (\<lambda>u. Raised RequestException)\<rparr>"
        "''Goa''" 20000 3 "\<lambda>n. 0"]
  note B = scrapers_convert_failures_to_empty
    [of "\<lparr>sightseeing_page = (\<lambda>u. Response 404 (Inr [])), hotels_page = (\<lambda>u. Response 404 (Inr []))\<rparr>"
        "''Goa''" 20000 3 "\<lambda>n. 0"]
  note C = scrapers_convert_failures_to_empty
    [of "\<lparr>sightseeing_page = (\<lambda>u. Response 200 (Inl ParseError)), hotels_page = (\<lambda>u. Response 200 (Inl ParseError))\<rparr>"
        "''Goa''" 20000 3 "\<lambda>n. 0"]
  note D = scrapers_convert_failures_to_empty
    [of "\<lparr>sightseeing_page = (\<lambda>u. Response 200 (Inr [])), hotels_page = (\<lambda>u. Response 200 (Inr [\<lparr>name_tag = Some ''Inn'', price_tag = Some (rupee @ '',''), text_sep = [], text_all = []\<rparr>]))\<rparr>"
        "''Goa''" 20000 3 "\<lambda>n. 0"]
  from A sA have aA: ?aA by blast
  from A hA have fA: ?fA by blast
  from A hA have dA: ?dA by blast
  from B sB nB have aB: ?aB by blast
  from B hB nB have fB: ?fB by blast
  from B hB nB have dB: ?dB by blast
  from C sC have aC: ?aC by blast
  from C hC have fC: ?fC by blast
  from C hC have dC: ?dC by blast
  from D hD vD have fD: ?fD by blast
  from D hD vD have dD: ?dD by blast
  from sA aA hA fA dA sB nB aB hB fB dB sC aC hC fC dC hD vD fD dD show ?thesis by (intro conjI)
qed

subsection \<open>The plan\<close>

lemma generate_plan_InrE:
  assumes "generate_plan w g destination budget days preferences food_type = Inr p"
  obtains scraped hotels g1 out hotel g2 food_cost g3 transport g4 shuffled g5 itinerary where
    "scrape_holidify_attractions w destination = Inr scraped"
    "scrape_holidify_hotels w destination budget days g = (Inr hotels, g1, out)"
    "choice hotels g1 = (Inr hotel, g2)"
    "(if food_type = ''vegetarian'' then randint 400 700 g2 else randint 600 900 g2) = (food_cost, g3)"
    "randint 600 2000 g3 = (transport, g4)"
    "shuffle (if filter_attractions scraped preferences = [] then default_attractions
              else filter_attractions scraped preferences) g4 = (shuffled, g5)"
    "build_itinerary shuffled days = Inr itinerary"
    "p = \<lparr>Destination = destination, Hotel = hotel, Hotel_Cost = price hotel,
          Food_Cost = food_cost, Transport = transport,
          Shopping = py_round2 (of_int budget * (3 / 10)),
          Total_Cost = of_int (price hotel * days + food_cost * days + transport)
                       + py_round2 (of_int budget * (3 / 10)),
          Itinerary = itinerary\<rparr>"
  using assms unfolding generate_plan_def Let_def
  by (auto split: sum.splits prod.splits)

lemma round_half_even_of_int: "round_half_even (of_int n) = n"
  by (simp add: round_half_even_def Let_def)

lemma py_round2_tenths: "py_round2 (of_int budget * (3 / 10)) = of_int (3 * budget) / 10"
proof -
  have e: "(of_int budget * (3 / 10) * 100 :: rat) = of_int (30 * budget)" by simp
  have "py_round2 (of_int budget * (3 / 10)) = of_int (30 * budget) / 100"
    unfolding py_round2_def e round_half_even_of_int ..
  also have "\<dots> = of_int (3 * budget) / 10" by simp
  finally show ?thesis .
qed

text \<open>
  C4. In every plan that \<open>generate_plan\<close> returns, the total cost is
  hotel price times days, plus food cost times days, plus transport, plus shopping, where
  shopping is 30 percent of the budget rounded to two decimals (for an integer budget,
  exactly three tenths of it). The hotel is one of the scraped hotels, the food cost lies
  in the range of the food type and the transport cost in 600..2000.
\<close>

theorem generate_plan_total_cost:
  assumes "generate_plan w g destination budget days preferences food_type = Inr p"
  shows "Total_Cost p = of_int (price (Hotel p) * days) + of_int (Food_Cost p * days)
                        + of_int (Transport p) + Shopping p \<and>
         Shopping p = py_round2 (of_int budget * (3 / 10)) \<and>
         Shopping p = of_int (3 * budget) / 10 \<and>
         Hotel_Cost p = price (Hotel p) \<and>
         (\<exists>hotels g1 out. scrape_holidify_hotels w destination budget days g = (Inr hotels, g1, out) \<and>
                          Hotel p \<in> set hotels) \<and>
         (if food_type = ''vegetarian'' then 400 \<le> Food_Cost p \<and> Food_Cost p \<le> 700
          else 600 \<le> Food_Cost p \<and> Food_Cost p \<le> 900) \<and>
         600 \<le> Transport p \<and> Transport p \<le> 2000"
proof -
  from assms obtain scraped hotels g1 out hotel g2 food_cost g3 transport g4 where
    h: "scrape_holidify_hotels w destination budget days g = (Inr hotels, g1, out)"
    and c: "choice hotels g1 = (Inr hotel, g2)"
    and f: "(if food_type = ''vegetarian'' then randint 400 700 g2 else randint 600 900 g2) = (food_cost, g3)"
    and t: "randint 600 2000 g3 = (transport, g4)"
    and p: "Hotel p = hotel" "Hotel_Cost p = price hotel" "Food_Cost p = food_cost"
      "Transport p = transport" "Shopping p = py_round2 (of_int budget * (3 / 10))"
      "Total_Cost p = of_int (price hotel * days + food_cost * days + transport)
                       + py_round2 (of_int budget * (3 / 10))"
    by (elim generate_plan_InrE) simp
  have "hotel \<in> set hotels" using c by (rule choice_Inr)
  moreover have "600 \<le> transport \<and> transport \<le> 2000" using t by (intro randint_range) simp_all
  moreover have "if food_type = ''vegetarian'' then 400 \<le> food_cost \<and> food_cost \<le> 700
          else 600 \<le> food_cost \<and> food_cost \<le> 900"
    using f randint_range [of 400 700 g2 food_cost g3] randint_range [of 600 900 g2 food_cost g3]
    by (simp split: if_splits)
  moreover have "Shopping p = of_int (3 * budget) / 10"
    using p(5) py_round2_tenths [of budget] by (simp only:)
  ultimately show ?thesis using h p by simp
qed

theorem generate_plan_total_cost_witness:
  "generate_plan
     \<lparr>sightseeing_page = (\<lambda>u. Raised RequestException),
      hotels_page = (\<lambda>u. Response 200 (Inr []))\<rparr>
     (\<lambda>n. 7 * n + 1) ''Goa'' 20000 3 [''nature''] ''vegetarian'' =
   Inr \<lparr>Destination = ''Goa'',
        Hotel = \<lparr>name = ''Hotel Comfort Inn'', price = 1400, rating = 42 / 10\<rparr>,
        Hotel_Cost = 1400, Food_Cost = 408, Transport = 615, Shopping = 6000,
        Total_Cost = 12039,
        Itinerary = [(''Day 1'', [''City Park'']), (''Day 2'', [''Local Market Visit'']),
                     (''Day 3'', [''Cultural Walk''])]\<rparr> \<and>
   (12039 :: rat) = of_int (1400 * 3) + of_int (408 * 3) + of_int 615 + 6000 \<and>
   (6000 :: rat) = of_int (3 * 20000) / 10 \<and>
   (400 :: int) \<le> 408 \<and> (408 :: int) \<le> 700 \<and> (600 :: int) \<le> 615 \<and> (615 :: int) \<le> 2000"
  (is "?gp \<and> ?rest")
proof -
  have gp: ?gp by code_simp
  from generate_plan_total_cost [OF gp] have ?rest by simp
  with gp show ?thesis by (rule conjI)
qed

lemma generate_plan_itinerary_shape:
  assumes gp: "generate_plan w g destination budget days preferences food_type = Inr p"
    and sc: "scrape_holidify_attractions w destination = Inr scraped"
  obtains shuffled g4 where
    "shuffled = fst (shuffle (if filter_attractions scraped preferences = [] then default_attractions
                              else filter_attractions scraped preferences) g4)"
    "build_itinerary shuffled days = Inr (Itinerary p)"
    "days \<noteq> 0"
    "Itinerary p =
       map (\<lambda>i. (day_label i,
                  take (nat (max 1 (int (length shuffled) div days)))
                       (drop (i * nat (max 1 (int (length shuffled) div days))) shuffled)))
           [0..<nat days]"
proof -
  from gp obtain scraped' g4 shuffled g5 itinerary where
    sc': "scrape_holidify_attractions w destination = Inr scraped'"
    and sh: "shuffle (if filter_attractions scraped' preferences = [] then default_attractions
              else filter_attractions scraped' preferences) g4 = (shuffled, g5)"
    and b: "build_itinerary shuffled days = Inr itinerary"
    and p: "Itinerary p = itinerary"
    by (elim generate_plan_InrE) simp
  from sc sc' have eq: "scraped' = scraped" by simp
  note sh = sh [unfolded eq]
  from b have nz: "days \<noteq> 0" by (auto simp: build_itinerary_zero)
  show thesis
  proof (rule that [of shuffled g4])
    show "shuffled = fst (shuffle (if filter_attractions scraped preferences = [] then default_attractions
                              else filter_attractions scraped preferences) g4)"
      by (simp only: sh fst_conv)
    show "build_itinerary shuffled days = Inr (Itinerary p)" using b p by simp
    show "days \<noteq> 0" by (rule nz)
    show "Itinerary p =
       map (\<lambda>i. (day_label i,
                  take (nat (max 1 (int (length shuffled) div days)))
                       (drop (i * nat (max 1 (int (length shuffled) div days))) shuffled)))
           [0..<nat days]"
      using build_itinerary_Inr [OF b] p by simp
  qed
qed

text \<open>
  C3 (amended). For \<open>days \<ge> 1\<close>, the itinerary has exactly the keys "Day 1" to
  "Day days", in this order and without repetition. With \<open>count\<close> the number of
  attractions used and \<open>per_day = max 1 (count div days)\<close>, day \<open>i + 1\<close> maps to the slice
  \<open>[i * per_day, (i + 1) * per_day)\<close> of the shuffled list, a permutation of the attractions
  used. When \<open>days \<le> count\<close> every day has exactly \<open>count div days\<close> attractions. The days
  together hold the first \<open>days * per_day\<close> shuffled attractions, the rest is dropped, so
  at most \<open>count\<close> in all.
\<close>

theorem generate_plan_itinerary_chunks:
  assumes gp: "generate_plan w g destination budget days preferences food_type = Inr p"
    and sc: "scrape_holidify_attractions w destination = Inr scraped"
    and days: "1 \<le> days"
  shows "\<exists>shuffled.
           mset shuffled = mset (if filter_attractions scraped preferences = [] then default_attractions
                                 else filter_attractions scraped preferences) \<and>
           (let count = length shuffled; per_day = nat (max 1 (int count div days)) in
              map fst (Itinerary p) = map day_label [0..<nat days] \<and>
              distinct (map fst (Itinerary p)) \<and>
              length (Itinerary p) = nat days \<and>
              (\<forall>i < nat days. map_of (Itinerary p) (day_label i)
                                 = Some (take per_day (drop (i * per_day) shuffled))) \<and>
              (days \<le> int count \<longrightarrow>
                 per_day = count div nat days \<and>
                 (\<forall>i < nat days. length (take per_day (drop (i * per_day) shuffled)) = count div nat days)) \<and>
              concat (map snd (Itinerary p)) = take (nat days * per_day) shuffled \<and>
              length (concat (map snd (Itinerary p))) \<le> count)"
proof -
  from gp sc obtain shuffled g4 where
    sh: "shuffled = fst (shuffle (if filter_attractions scraped preferences = [] then default_attractions
                              else filter_attractions scraped preferences) g4)"
    and it: "Itinerary p =
       map (\<lambda>i. (day_label i,
                  take (nat (max 1 (int (length shuffled) div days)))
                       (drop (i * nat (max 1 (int (length shuffled) div days))) shuffled)))
           [0..<nat days]"
    by (rule generate_plan_itinerary_shape)
  define count where "count = length shuffled"
  define per_day where "per_day = nat (max 1 (int count div days))"
  note it' = it [folded count_def, folded per_day_def]
  have m: "mset shuffled = mset (if filter_attractions scraped preferences = [] then default_attractions
                                 else filter_attractions scraped preferences)"
    unfolding sh by (rule shuffle_mset)
  have keys: "map fst (Itinerary p) = map day_label [0..<nat days]"
    unfolding it' by (simp add: comp_def)
  have dist: "distinct (map fst (Itinerary p))"
    unfolding keys by (rule distinct_day_labels)
  have len: "length (Itinerary p) = nat days" unfolding it' by simp
  have look: "\<forall>i < nat days. map_of (Itinerary p) (day_label i)
                                 = Some (take per_day (drop (i * per_day) shuffled))"
    unfolding it' by (simp add: map_of_day_labels)
  have cc: "concat (map snd (Itinerary p)) = take (nat days * per_day) shuffled"
    unfolding it' by (simp add: comp_def concat_chunks)
  have tot: "length (concat (map snd (Itinerary p))) \<le> count"
    unfolding cc count_def by simp
  have exact: "per_day = count div nat days \<and>
       (\<forall>i < nat days. length (take per_day (drop (i * per_day) shuffled)) = count div nat days)"
    if ge: "days \<le> int count"
  proof -
    define n where "n = nat days"
    have n: "0 < n" "n \<le> count" "days = int n" using days ge by (simp_all add: n_def)
    have "int count div days = int (count div n)" unfolding n(3) by (simp add: zdiv_int)
    moreover have "1 \<le> count div n" using n by (simp add: Suc_le_eq div_greater_zero_iff)
    ultimately have pd: "per_day = count div n" unfolding per_day_def by simp
    have "length (take per_day (drop (i * per_day) shuffled)) = per_day" if "i < n" for i
    proof -
      from that have "Suc i \<le> n" by simp
      then have "Suc i * per_day \<le> n * per_day" by (rule mult_le_mono1)
      also have "\<dots> \<le> count" unfolding pd by simp
      finally have "i * per_day + per_day \<le> length shuffled" by (simp add: count_def)
      then show ?thesis by simp
    qed
    with pd show ?thesis unfolding n_def by simp
  qed
  show ?thesis
    apply (rule exI [of _ shuffled])
    unfolding Let_def count_def [symmetric] per_day_def [symmetric]
    using m keys dist len look cc tot exact by blast
qed

theorem generate_plan_itinerary_chunks_witness:
  "generate_plan
     \<lparr>sightseeing_page = (\<lambda>u. Response 200 (Inr
         [''1. Chorla Hill'', ''2. Spice Garden'', ''3. Baga Beach'', ''4. Netravali Forest''])),
      hotels_page = (\<lambda>u. Response 200 (Inr []))\<rparr>
     (\<lambda>n. 7 * n + 1) ''Goa'' 20000 2 [''nature''] ''vegetarian'' =
   Inr \<lparr>Destination = ''Goa'',
        Hotel = \<lparr>name = ''Hotel Comfort Inn'', price = 1400, rating = 42 / 10\<rparr>,
        Hotel_Cost = 1400, Food_Cost = 408, Transport = 615, Shopping = 6000,
        Total_Cost = 10231,
        Itinerary = [(''Day 1'', [''Chorla Hill'']), (''Day 2'', [''Netravali Forest''])]\<rparr> \<and>
   scrape_holidify_attractions
     \<lparr>sightseeing_page = (\<lambda>u. Response 200 (Inr
         [''1. Chorla Hill'', ''2. Spice Garden'', ''3. Baga Beach'', ''4. Netravali Forest''])),
      hotels_page = (\<lambda>u. Response 200 (Inr []))\<rparr> ''Goa'' =
   Inr [''Chorla Hill'', ''Spice Garden'', ''Baga Beach'', ''Netravali Forest''] \<and>
   (1 :: int) \<le> 2 \<and>
   map fst [(''Day 1'', [''Chorla Hill'']), (''Day 2'', [''Netravali Forest''])]
     = map day_label [0..<nat 2] \<and>
   length (concat (map snd [(''Day 1'', [''Chorla Hill'']), (''Day 2'', [''Netravali Forest''])]))
     \<le> length [''Chorla Hill'', ''Spice Garden'', ''Netravali Forest'']"
  (is "?gp \<and> ?sc \<and> ?days \<and> ?keys \<and> ?total")
proof -
  have gp: ?gp by code_simp
  have sc: ?sc by code_simp
  have days: ?days by simp
  have f: "filter_attractions [''Chorla Hill'', ''Spice Garden'', ''Baga Beach'', ''Netravali Forest'']
             [''nature''] = [''Chorla Hill'', ''Spice Garden'', ''Netravali Forest'']"
    by code_simp
  from generate_plan_itinerary_chunks [OF gp sc days] obtain shuffled where
    m: "mset shuffled = mset [''Chorla Hill'', ''Spice Garden'', ''Netravali Forest'']"
    and k: ?keys
    and t: "length (concat (map snd [(''Day 1'', [''Chorla Hill'']), (''Day 2'', [''Netravali Forest''])]))
              \<le> length shuffled"
    unfolding f Let_def by (auto simp del: upt_Suc)
  from m have "size (mset shuffled) = size (mset [''Chorla Hill'', ''Spice Garden'', ''Netravali Forest''])"
    by (rule arg_cong)
  then have "length shuffled = length [''Chorla Hill'', ''Spice Garden'', ''Netravali Forest'']"
    by (simp only: size_mset)
  with t have ?total by (simp only:)
  with gp sc days k show ?thesis by (intro conjI)
qed

theorem generate_plan_chunk_larger_than_quotient:
  "generate_plan
     \<lparr>sightseeing_page = (\<lambda>u. Raised RequestException),
      hotels_page = (\<lambda>u. Response 200 (Inr []))\<rparr>
     (\<lambda>n. 7 * n + 1) ''Goa'' 20000 5 [''nature''] ''vegetarian'' =
   Inr \<lparr>Destination = ''Goa'',
        Hotel = \<lparr>name = ''Hotel Comfort Inn'', price = 1400, rating = 42 / 10\<rparr>,
        Hotel_Cost = 1400, Food_Cost = 408, Transport = 615, Shopping = 6000,
        Total_Cost = 15655,
        Itinerary = [(''Day 1'', [''City Park'']), (''Day 2'', [''Local Market Visit'']),
                     (''Day 3'', [''Cultural Walk'']), (''Day 4'', [''Sunset Point'']),
                     (''Day 5'', [])]\<rparr> \<and>
   length default_attractions = 4 \<and>
   \<not> length [''City Park''] \<le> (4 :: nat) div 5"
  by (intro conjI; code_simp)

text \<open>
  C10. When there are fewer attractions than days, the chunk size
  \<open>max 1 (count div days)\<close> is 1: each of the first \<open>count\<close> days gets exactly one
  attraction, every later day gets the empty list, and all the day labels are keys. The
  list is never empty at this point, so \<open>1 \<le> count\<close> always holds.
\<close>

theorem generate_plan_fewer_attractions_than_days:
  assumes gp: "generate_plan w g destination budget days preferences food_type = Inr p"
    and sc: "scrape_holidify_attractions w destination = Inr scraped"
    and few: "int (length (if filter_attractions scraped preferences = [] then default_attractions
                            else filter_attractions scraped preferences)) < days"
  shows "\<exists>shuffled.
           mset shuffled = mset (if filter_attractions scraped preferences = [] then default_attractions
                                 else filter_attractions scraped preferences) \<and>
           1 \<le> length shuffled \<and>
           max 1 (int (length shuffled) div days) = 1 \<and>
           map fst (Itinerary p) = map day_label [0..<nat days] \<and>
           (\<forall>i < nat days. map_of (Itinerary p) (day_label i)
                              = Some (if i < length shuffled then [shuffled ! i] else []))"
proof -
  from gp sc obtain shuffled g4 where
    sh: "shuffled = fst (shuffle (if filter_attractions scraped preferences = [] then default_attractions
                              else filter_attractions scraped preferences) g4)"
    and it: "Itinerary p =
       map (\<lambda>i. (day_label i,
                  take (nat (max 1 (int (length shuffled) div days)))
                       (drop (i * nat (max 1 (int (length shuffled) div days))) shuffled)))
           [0..<nat days]"
    by (rule generate_plan_itinerary_shape)
  have m: "mset shuffled = mset (if filter_attractions scraped preferences = [] then default_attractions
                                 else filter_attractions scraped preferences)"
    unfolding sh by (rule shuffle_mset)
  have l: "length shuffled = length (if filter_attractions scraped preferences = [] then default_attractions
                                 else filter_attractions scraped preferences)"
    unfolding sh by (rule shuffle_length)
  have ne: "1 \<le> length shuffled" unfolding l by (simp add: default_attractions_def Suc_le_eq)
  from few l have lt: "int (length shuffled) < days" by simp
  then have "int (length shuffled) div days = 0" by (simp add: div_pos_pos_trivial)
  then have pd: "max 1 (int (length shuffled) div days) = 1" by simp
  have it1: "Itinerary p = map (\<lambda>i. (day_label i, take 1 (drop i shuffled))) [0..<nat days]"
    using it unfolding pd by simp
  have chunk: "take (Suc 0) (drop i shuffled) = (if i < length shuffled then [shuffled ! i] else [])" for i
  proof (cases "i < length shuffled")
    case True
    then have "drop i shuffled = shuffled ! i # drop (Suc i) shuffled"
      by (simp add: Cons_nth_drop_Suc)
    with True show ?thesis by simp
  next
    case False
    then show ?thesis by simp
  qed
  have look: "\<forall>i < nat days. map_of (Itinerary p) (day_label i)
                              = Some (if i < length shuffled then [shuffled ! i] else [])"
    unfolding it1 by (simp add: map_of_day_labels chunk del: take_Suc)
  have keys: "map fst (Itinerary p) = map day_label [0..<nat days]"
    unfolding it1 by (simp add: comp_def)
  from m ne pd keys look show ?thesis by blast
qed

theorem generate_plan_fewer_attractions_than_days_witness:
  "generate_plan
     \<lparr>sightseeing_page = (\<lambda>u. Raised RequestException), hotels_page = (\<lambda>u. Response 200 (Inr []))\<rparr>
     (\<lambda>n. 7 * n + 1) ''Goa'' 20000 5 [''nature''] ''vegetarian'' =
   Inr \<lparr>Destination = ''Goa'',
        Hotel = \<lparr>name = ''Hotel Comfort Inn'', price = 1400, rating = 42 / 10\<rparr>,
        Hotel_Cost = 1400, Food_Cost = 408, Transport = 615, Shopping = 6000,
        Total_Cost = 15655,
        Itinerary = [(''Day 1'', [''City Park'']), (''Day 2'', [''Local Market Visit'']), (''Day 3'', [''Cultural Walk'']), (''Day 4'', [''Sunset Point'']), (''Day 5'', [])]\<rparr> \<and>
   scrape_holidify_attractions
      \<lparr>sightseeing_page = (\<lambda>u. Raised RequestException), hotels_page = (\<lambda>u. Response 200 (Inr []))\<rparr> ''Goa'' = Inr [] \<and>
   int (length (if filter_attractions [] [''nature''] = [] then default_attractions
                else filter_attractions [] [''nature''])) < 5 \<and>
   map fst [(''Day 1'', [''City Park'']), (''Day 2'', [''Local Market Visit'']), (''Day 3'', [''Cultural Walk'']), (''Day 4'', [''Sunset Point'']), (''Day 5'', [])] = map day_label [0..<nat 5] \<and>
   max 1 (int (length default_attractions) div 5) = 1 \<and>
   map_of [(''Day 1'', [''City Park'']), (''Day 2'', [''Local Market Visit'']), (''Day 3'', [''Cultural Walk'']), (''Day 4'', [''Sunset Point'']), (''Day 5'', [])] (day_label 3) \<noteq> Some [] \<and>
   map_of [(''Day 1'', [''City Park'']), (''Day 2'', [''Local Market Visit'']), (''Day 3'', [''Cultural Walk'']), (''Day 4'', [''Sunset Point'']), (''Day 5'', [])] (day_label 4) = Some []"
  (is "?gp \<and> ?sc \<and> ?few \<and> ?keys \<and> ?one \<and> ?d4 \<and> ?d5")
proof -
  have gp: ?gp by code_simp
  have sc: ?sc by (simp add: scrape_holidify_attractions_def attractions_try_def)
  have f: "filter_attractions [] [''nature''] = []" by (simp add: filter_attractions_def)
  have few: ?few by (simp add: f default_attractions_def)
  from generate_plan_fewer_attractions_than_days [OF gp sc few] obtain shuffled where
    m: "mset shuffled = mset default_attractions"
    and o: "max 1 (int (length shuffled) div 5) = 1"
    and k: ?keys
    and l: "\<forall>i < nat 5. map_of [(''Day 1'', [''City Park'']), (''Day 2'', [''Local Market Visit'']), (''Day 3'', [''Cultural Walk'']), (''Day 4'', [''Sunset Point'']), (''Day 5'', [])] (day_label i)
              = Some (if i < length shuffled then [shuffled ! i] else [])"
    unfolding f by (auto simp del: upt_Suc)
  from m have "size (mset shuffled) = size (mset default_attractions)" by (rule arg_cong)
  then have len: "length shuffled = length default_attractions" by (simp only: size_mset)
  then have len4: "length shuffled = 4" by (simp add: default_attractions_def)
  from o len have one: ?one by (simp only:)
  from l have "map_of [(''Day 1'', [''City Park'']), (''Day 2'', [''Local Market Visit'']), (''Day 3'', [''Cultural Walk'']), (''Day 4'', [''Sunset Point'']), (''Day 5'', [])] (day_label 3)
              = Some (if 3 < length shuffled then [shuffled ! 3] else [])" by simp
  with len4 have d4: ?d4 by simp
  from l have "map_of [(''Day 1'', [''City Park'']), (''Day 2'', [''Local Market Visit'']), (''Day 3'', [''Cultural Walk'']), (''Day 4'', [''Sunset Point'']), (''Day 5'', [])] (day_label 4)
              = Some (if 4 < length shuffled then [shuffled ! 4] else [])" by simp
  with len4 have d5: ?d5 by simp
  from gp sc few k one d4 d5 show ?thesis by (intro conjI)
qed

text \<open>
  C8. When the filtered attraction list is empty, the itinerary is built from a shuffle of
  the four default attractions, and only these occur in it; when it is not empty, the
  itinerary is built from a shuffle of the filtered list itself.
\<close>

theorem generate_plan_default_attractions:
  assumes gp: "generate_plan w g destination budget days preferences food_type = Inr p"
    and sc: "scrape_holidify_attractions w destination = Inr scraped"
  shows "default_attractions = [''Local Market Visit'', ''City Park'', ''Sunset Point'', ''Cultural Walk''] \<and>
         (filter_attractions scraped preferences = [] \<longrightarrow>
            (\<exists>g4. build_itinerary (fst (shuffle default_attractions g4)) days = Inr (Itinerary p)) \<and>
            set (concat (map snd (Itinerary p))) \<subseteq> set default_attractions) \<and>
         (filter_attractions scraped preferences \<noteq> [] \<longrightarrow>
            (\<exists>g4. build_itinerary (fst (shuffle (filter_attractions scraped preferences) g4)) days
                     = Inr (Itinerary p)) \<and>
            set (concat (map snd (Itinerary p))) \<subseteq> set (filter_attractions scraped preferences))"
proof -
  define used where "used = (if filter_attractions scraped preferences = [] then default_attractions
                              else filter_attractions scraped preferences)"
  from gp sc obtain shuffled g4 where
    sh: "shuffled = fst (shuffle used g4)"
    and b: "build_itinerary shuffled days = Inr (Itinerary p)"
    and it: "Itinerary p =
       map (\<lambda>i. (day_label i,
                  take (nat (max 1 (int (length shuffled) div days)))
                       (drop (i * nat (max 1 (int (length shuffled) div days))) shuffled)))
           [0..<nat days]"
    unfolding used_def by (rule generate_plan_itinerary_shape)
  have "concat (map snd (Itinerary p)) =
          take (nat days * nat (max 1 (int (length shuffled) div days))) shuffled"
    unfolding it by (simp add: comp_def concat_chunks)
  then have "set (concat (map snd (Itinerary p))) \<subseteq> set shuffled"
    by (simp add: set_take_subset)
  moreover have "set shuffled = set used"
    unfolding sh using shuffle_mset [of used g4] by (metis set_mset_mset)
  ultimately have sub: "set (concat (map snd (Itinerary p))) \<subseteq> set used" by simp
  from b sh have ex: "\<exists>g4. build_itinerary (fst (shuffle used g4)) days = Inr (Itinerary p)" by blast
  have d: "default_attractions = [''Local Market Visit'', ''City Park'', ''Sunset Point'', ''Cultural Walk'']"
    by (simp add: default_attractions_def)
  show ?thesis
  proof (cases "filter_attractions scraped preferences = []")
    case True
    then have "used = default_attractions" by (simp add: used_def)
    with sub ex True d show ?thesis by auto
  next
    case False
    then have "used = filter_attractions scraped preferences" by (simp add: used_def)
    with sub ex False d show ?thesis by auto
  qed
qed

theorem generate_plan_default_attractions_witness:
  "generate_plan
     \<lparr>sightseeing_page = (\<lambda>u. Raised RequestException), hotels_page = (\<lambda>u. Response 200 (Inr []))\<rparr>
     (\<lambda>n. 7 * n + 1) ''Goa'' 20000 3 [''nature''] ''vegetarian'' =
   Inr \<lparr>Destination = ''Goa'',
        Hotel = \<lparr>name = ''Hotel Comfort Inn'', price = 1400, rating = 42 / 10\<rparr>,
        Hotel_Cost = 1400, Food_Cost = 408, Transport = 615, Shopping = 6000,
        Total_Cost = 12039,
        Itinerary = [(''Day 1'', [''City Park'']), (''Day 2'', [''Local Market Visit'']), (''Day 3'', [''Cultural Walk''])]\<rparr> \<and>
   scrape_holidify_attractions
      \<lparr>sightseeing_page = (\<lambda>u. Raised RequestException), hotels_page = (\<lambda>u. Response 200 (Inr []))\<rparr> ''Goa'' = Inr [] \<and>
   filter_attractions [] [''nature''] = [] \<and>
   set (concat (map snd [(''Day 1'', [''City Park'']), (''Day 2'', [''Local Market Visit'']), (''Day 3'', [''Cultural Walk''])])) \<subseteq> set default_attractions \<and>
   generate_plan
     \<lparr>sightseeing_page = (\<lambda>u. Response 200 (Inr
         [''1. Chorla Hill'', ''2. Spice Garden'', ''3. Baga Beach'', ''4. Netravali Forest''])), hotels_page = (\<lambda>u. Response 200 (Inr []))\<rparr>
     (\<lambda>n. 7 * n + 1) ''Goa'' 20000 2 [''nature''] ''vegetarian'' =
   Inr \<lparr>Destination = ''Goa'',
        Hotel = \<lparr>name = ''Hotel Comfort Inn'', price = 1400, rating = 42 / 10\<rparr>,
        Hotel_Cost = 1400, Food_Cost = 408, Transport = 615, Shopping = 6000,
        Total_Cost = 10231,
        Itinerary = [(''Day 1'', [''Chorla Hill'']), (''Day 2'', [''Netravali Forest''])]\<rparr> \<and>
   scrape_holidify_attractions
      \<lparr>sightseeing_page = (\<lambda>u. Response 200 (Inr
         [''1. Chorla Hill'', ''2. Spice Garden'', ''3. Baga Beach'', ''4. Netravali Forest''])), hotels_page = (\<lambda>u. Response 200 (Inr []))\<rparr> ''Goa'' =
   Inr [''Chorla Hill'', ''Spice Garden'', ''Baga Beach'', ''Netravali Forest''] \<and>
   filter_attractions [''Chorla Hill'', ''Spice Garden'', ''Baga Beach'', ''Netravali Forest''] [''nature''] \<noteq> [] \<and>
   set (concat (map snd [(''Day 1'', [''Chorla Hill'']), (''Day 2'', [''Netravali Forest''])]))
     \<subseteq> set (filter_attractions [''Chorla Hill'', ''Spice Garden'', ''Baga Beach'', ''Netravali Forest''] [''nature''])"
  (is "?gp1 \<and> ?sc1 \<and> ?f1 \<and> ?sub1 \<and> ?gp2 \<and> ?sc2 \<and> ?f2 \<and> ?sub2")
proof -
  have gp1: ?gp1 by code_simp
  have sc1: ?sc1 by (simp add: scrape_holidify_attractions_def attractions_try_def)
  have f1: ?f1 by (simp add: filter_attractions_def)
  have gp2: ?gp2 by code_simp
  have sc2: ?sc2 by code_simp
  have f2: ?f2 by code_simp
  from generate_plan_default_attractions [OF gp1 sc1] f1 have sub1: ?sub1
    by (simp only: plan.simps simp_thms)
  from generate_plan_default_attractions [OF gp2 sc2] f2 have sub2: ?sub2
    by (simp only: plan.simps simp_thms)
  from gp1 sc1 f1 sub1 gp2 sc2 f2 sub2 show ?thesis by (intro conjI)
qed

text \<open>
  C2. In the scenario of the claim both requests raise. The hotel scraper then returns
  the empty list and not the fallback list, \<^verbatim>\<open>random.choice\<close> raises IndexError on it,
  and \<open>generate_plan\<close> returns no plan.
\<close>

theorem generate_plan_network_failure:
  "generate_plan \<lparr>sightseeing_page = (\<lambda>u. Raised e1), hotels_page = (\<lambda>u. Raised e2)\<rparr> g
     ''Goa'' 20000 3 [''nature''] ''vegetarian'' = Inl IndexError"
  by (simp add: generate_plan_def scrape_holidify_attractions_def attractions_try_def
      scrape_holidify_hotels_def hotels_try_def choice_def)

lemma generate_plan_unfold:
  assumes sc: "scrape_holidify_attractions w destination = Inr scraped"
    and sh: "scrape_holidify_hotels w destination budget days g = (Inr hotels, g1, out)"
    and c: "choice hotels g1 = (r, g2)"
    and f: "(if food_type = ''vegetarian'' then randint 400 700 g2 else randint 600 900 g2)
              = (food_cost, g3)"
    and t: "randint 600 2000 g3 = (transport, g4)"
    and s: "shuffle (if filter_attractions scraped preferences = [] then default_attractions
                     else filter_attractions scraped preferences) g4 = (shuffled, g5)"
  shows "generate_plan w g destination budget days preferences food_type =
           (case r of
              Inl e \<Rightarrow> Inl e
            | Inr hotel \<Rightarrow>
                (case build_itinerary shuffled days of
                   Inl e \<Rightarrow> Inl e
                 | Inr itinerary \<Rightarrow>
                     Inr \<lparr>Destination = destination, Hotel = hotel, Hotel_Cost = price hotel,
                          Food_Cost = food_cost, Transport = transport,
                          Shopping = py_round2 (of_int budget * (3 / 10)),
                          Total_Cost = of_int (price hotel * days + food_cost * days + transport)
                                       + py_round2 (of_int budget * (3 / 10)),
                          Itinerary = itinerary\<rparr>))"
proof (cases r)
  case (Inl e)
  with c show ?thesis unfolding generate_plan_def sc sh by simp
next
  case (Inr hotel)
  with c show ?thesis
    unfolding generate_plan_def sc sh Let_def
    by (simp only: sum.case prod.case f t s)
qed

text \<open>
  When \<open>generate_plan\<close> raises and when it returns: IndexError exactly when the hotel
  scraper returned the empty list, ZeroDivisionError exactly when there is a hotel and
  \<open>days\<close> is 0, and a plan in every other case.
\<close>

lemma generate_plan_outcome:
  assumes h: "fst (scrape_holidify_hotels w destination budget days g) = Inr hotels"
  shows "(generate_plan w g destination budget days preferences food_type = Inl IndexError
            \<longleftrightarrow> hotels = []) \<and>
         (generate_plan w g destination budget days preferences food_type = Inl ZeroDivisionError
            \<longleftrightarrow> hotels \<noteq> [] \<and> days = 0) \<and>
         ((\<exists>p. generate_plan w g destination budget days preferences food_type = Inr p)
            \<longleftrightarrow> hotels \<noteq> [] \<and> days \<noteq> 0)"
proof -
  obtain scraped where sc: "scrape_holidify_attractions w destination = Inr scraped"
    using scrape_holidify_attractions_total by blast
  obtain g1 out where sh: "scrape_holidify_hotels w destination budget days g = (Inr hotels, g1, out)"
    using h by (cases "scrape_holidify_hotels w destination budget days g") auto
  obtain r g2 where c: "choice hotels g1 = (r, g2)" by (cases "choice hotels g1")
  obtain food_cost g3 where
    f: "(if food_type = ''vegetarian'' then randint 400 700 g2 else randint 600 900 g2)
          = (food_cost, g3)"
    by (cases "if food_type = ''vegetarian'' then randint 400 700 g2 else randint 600 900 g2")
  obtain transport g4 where t: "randint 600 2000 g3 = (transport, g4)"
    by (cases "randint 600 2000 g3")
  obtain shuffled g5 where
    s: "shuffle (if filter_attractions scraped preferences = [] then default_attractions
                 else filter_attractions scraped preferences) g4 = (shuffled, g5)"
    by (cases "shuffle (if filter_attractions scraped preferences = [] then default_attractions
                 else filter_attractions scraped preferences) g4")
  note u = generate_plan_unfold [OF sc sh c f t s]
  show ?thesis
  proof (cases "hotels = []")
    case True
    with c have "r = Inl IndexError" by (simp add: choice_def)
    with True show ?thesis unfolding u by simp
  next
    case ne: False
    with c obtain hotel where r: "r = Inr hotel"
      by (auto simp: choice_def case_prod_beta)
    show ?thesis
    proof (cases "days = 0")
      case True
      then have "build_itinerary shuffled days = Inl ZeroDivisionError"
        by (simp add: build_itinerary_zero)
      with ne True show ?thesis unfolding u r by simp
    next
      case False
      from build_itinerary_eq [OF False, of shuffled] obtain itinerary where
        "build_itinerary shuffled days = Inr itinerary" by blast
      with ne False show ?thesis unfolding u r by simp
    qed
  qed
qed

text \<open>
  The same scenario with the hotels page answered (status 200, no card that qualifies)
  instead of a failed request: the hotel scraper then returns the fallback list, and a
  plan is produced for every random source, with three days of one default attraction
  each.
\<close>

lemma generate_plan_scenario_hotels_page_answered:
  fixes g :: rng
  defines "w \<equiv> \<lparr>sightseeing_page = (\<lambda>u. Raised RequestException),
                  hotels_page = (\<lambda>u. Response 200 (Inr []))\<rparr>"
  shows "\<exists>p. generate_plan w g ''Goa'' 20000 3 [''nature''] ''vegetarian'' = Inr p \<and>
            Hotel p \<in> set fallback_hotels \<and>
            400 \<le> Food_Cost p \<and> Food_Cost p \<le> 700 \<and>
            600 \<le> Transport p \<and> Transport p \<le> 2000 \<and>
            Shopping p = 6000 \<and>
            map fst (Itinerary p) = [''Day 1'', ''Day 2'', ''Day 3''] \<and>
            list_all (\<lambda>kv. length (snd kv) = 1) (Itinerary p) \<and>
            set (concat (map snd (Itinerary p))) \<subseteq> set default_attractions"
proof -
  have sh: "scrape_holidify_hotels w ''Goa'' 20000 3 g = (Inr fallback_hotels, g, [])"
    by (simp add: w_def scrape_holidify_hotels_def hotels_try_def fallback_hotels_length)
  have sc: "scrape_holidify_attractions w ''Goa'' = Inr []"
    by (simp add: w_def scrape_holidify_attractions_def attractions_try_def)
  have f: "filter_attractions [] [''nature''] = []" by (simp add: filter_attractions_def)
  have "fallback_hotels \<noteq> []" by (simp add: fallback_hotels_def)
  with generate_plan_outcome [of w "''Goa''" 20000 3 g fallback_hotels "[''nature'']" "''vegetarian''"] sh
  obtain p where gp: "generate_plan w g ''Goa'' 20000 3 [''nature''] ''vegetarian'' = Inr p"
    by auto
  from gp obtain hotels g1 out hotel g2 food_cost g3 transport g4 where
    h: "scrape_holidify_hotels w ''Goa'' 20000 3 g = (Inr hotels, g1, out)"
    and c: "choice hotels g1 = (Inr hotel, g2)"
    and fd: "randint 400 700 g2 = (food_cost, g3)"
    and t: "randint 600 2000 g3 = (transport, g4)"
    and p: "Hotel p = hotel" "Food_Cost p = food_cost" "Transport p = transport"
      "Shopping p = py_round2 (of_int 20000 * (3 / 10))"
    by (elim generate_plan_InrE) simp
  from h sh have "hotels = fallback_hotels" by simp
  with c have hotel: "hotel \<in> set fallback_hotels" by (auto dest: choice_Inr)
  have food: "400 \<le> food_cost \<and> food_cost \<le> 700" using fd by (intro randint_range) simp_all
  have tr: "600 \<le> transport \<and> transport \<le> 2000" using t by (intro randint_range) simp_all
  have shop: "Shopping p = 6000" unfolding p(4) py_round2_tenths by simp
  from gp sc obtain shuffled g4' where
    s: "shuffled = fst (shuffle (if filter_attractions [] [''nature''] = [] then default_attractions
                              else filter_attractions [] [''nature'']) g4')"
    and it: "Itinerary p =
       map (\<lambda>i. (day_label i,
                  take (nat (max 1 (int (length shuffled) div 3)))
                       (drop (i * nat (max 1 (int (length shuffled) div 3))) shuffled)))
           [0..<nat 3]"
    by (rule generate_plan_itinerary_shape)
  from s f have s': "shuffled = fst (shuffle default_attractions g4')" by simp
  have len: "length shuffled = 4" unfolding s' by (simp add: shuffle_length default_attractions_def)
  have "set shuffled = set default_attractions"
    unfolding s' using shuffle_mset [of default_attractions g4'] by (metis set_mset_mset)
  moreover have u: "[0..<nat 3] = [0, 1, 2]" by code_simp
  moreover have it3: "Itinerary p = [(day_label 0, take 1 shuffled), (day_label 1, take 1 (drop 1 shuffled)),
                       (day_label 2, take 1 (drop 2 shuffled))]"
    unfolding it len u by simp
  ultimately have sub: "set (concat (map snd (Itinerary p))) \<subseteq> set default_attractions"
    by (auto dest: in_set_takeD in_set_dropD)
  have keys: "map fst (Itinerary p) = [''Day 1'', ''Day 2'', ''Day 3'']"
    unfolding it3 by code_simp
  have ones: "list_all (\<lambda>kv. length (snd kv) = 1) (Itinerary p)"
    unfolding it3 using len by simp
  from gp hotel food tr shop keys ones sub p show ?thesis by auto
qed

end
